theory Spec2Isabelle
  imports Main "HOL-Library.AList" "HOL-Library.Multiset" "HOL-Library.Char_ord"
    "HOL-Library.List_Lexorder"
begin

section \<open>Python values\<close>

text \<open>
  The values a cell of the table, a diff entry or a row key can hold. Floating-point
  numbers and sets are left out. A dictionary keeps its items in insertion order;
  its keys are strings, as in a row of the table and in decoded JSON.
\<close>

datatype pyval =
    PNone
  | PBool bool
  | PInt int
  | PStr string
  | PBytes string
  | PByteArray string
  | PList "pyval list"
  | PTuple "pyval list"
  | PDict "(string \<times> pyval) list"

type_synonym row = "(string \<times> pyval) list"

datatype error =
    StopIteration
  | KeyError string
  | IndexError
  | TypeError
  | JSONDecodeError
  | JSONError string
  | StoreError string

text \<open>\<open>isinstance(value, Mapping)\<close>, \<open>isinstance(value, Sequence)\<close> and
  \<open>isinstance(value, (str, bytes, bytearray))\<close>. Strings, bytes and byte arrays are
  registered as sequences in \<open>collections.abc\<close>.\<close>

fun isinstance_Mapping :: "pyval \<Rightarrow> bool" where
  "isinstance_Mapping (PDict _) = True"
| "isinstance_Mapping _ = False"

fun isinstance_Sequence :: "pyval \<Rightarrow> bool" where
  "isinstance_Sequence (PList _) = True"
| "isinstance_Sequence (PTuple _) = True"
| "isinstance_Sequence (PStr _) = True"
| "isinstance_Sequence (PBytes _) = True"
| "isinstance_Sequence (PByteArray _) = True"
| "isinstance_Sequence _ = False"

fun isinstance_str_bytes_bytearray :: "pyval \<Rightarrow> bool" where
  "isinstance_str_bytes_bytearray (PStr _) = True"
| "isinstance_str_bytes_bytearray (PBytes _) = True"
| "isinstance_str_bytes_bytearray (PByteArray _) = True"
| "isinstance_str_bytes_bytearray _ = False"

text \<open>Python's \<open>==\<close>: \<open>True == 1\<close>, bytes compare with byte arrays, a list never equals
  a tuple, and two dictionaries are equal when they have the same keys with equal values,
  in any order.\<close>

fun py_eq :: "pyval \<Rightarrow> pyval \<Rightarrow> bool"
  and py_eq_list :: "pyval list \<Rightarrow> pyval list \<Rightarrow> bool"
  and py_eq_items :: "(string \<times> pyval) list \<Rightarrow> (string \<times> pyval) list \<Rightarrow> bool" where
  "py_eq PNone w = (w = PNone)"
| "py_eq (PBool b) w = (case w of PBool c \<Rightarrow> b = c | PInt n \<Rightarrow> n = (if b then 1 else 0) | _ \<Rightarrow> False)"
| "py_eq (PInt m) w = (case w of PInt n \<Rightarrow> m = n | PBool c \<Rightarrow> m = (if c then 1 else 0) | _ \<Rightarrow> False)"
| "py_eq (PStr s) w = (w = PStr s)"
| "py_eq (PBytes s) w = (w = PBytes s \<or> w = PByteArray s)"
| "py_eq (PByteArray s) w = (w = PBytes s \<or> w = PByteArray s)"
| "py_eq (PList vs) w = (case w of PList ws \<Rightarrow> py_eq_list vs ws | _ \<Rightarrow> False)"
| "py_eq (PTuple vs) w = (case w of PTuple ws \<Rightarrow> py_eq_list vs ws | _ \<Rightarrow> False)"
| "py_eq (PDict kvs) w =
     (case w of PDict kws \<Rightarrow> length kvs = length kws \<and> py_eq_items kvs kws | _ \<Rightarrow> False)"
| "py_eq_list [] ws = (ws = [])"
| "py_eq_list (v # vs) ws = (case ws of [] \<Rightarrow> False | w # ws' \<Rightarrow> py_eq v w \<and> py_eq_list vs ws')"
| "py_eq_items [] kws = True"
| "py_eq_items ((k, v) # kvs) kws =
     ((case map_of kws k of None \<Rightarrow> False | Some w \<Rightarrow> py_eq v w) \<and> py_eq_items kvs kws)"

text \<open>A Python dictionary holds each key once. The lists of items that stand for
  dictionaries meet this when \<open>distinct_keys\<close> holds, at every depth of the value.\<close>

fun distinct_keys :: "pyval \<Rightarrow> bool"
  and distinct_keys_list :: "pyval list \<Rightarrow> bool"
  and distinct_keys_items :: "(string \<times> pyval) list \<Rightarrow> bool" where
  "distinct_keys (PList vs) = distinct_keys_list vs"
| "distinct_keys (PTuple vs) = distinct_keys_list vs"
| "distinct_keys (PDict kvs) = (distinct (map fst kvs) \<and> distinct_keys_items kvs)"
| "distinct_keys PNone = True"
| "distinct_keys (PBool _) = True"
| "distinct_keys (PInt _) = True"
| "distinct_keys (PStr _) = True"
| "distinct_keys (PBytes _) = True"
| "distinct_keys (PByteArray _) = True"
| "distinct_keys_list [] = True"
| "distinct_keys_list (v # vs) = (distinct_keys v \<and> distinct_keys_list vs)"
| "distinct_keys_items [] = True"
| "distinct_keys_items ((k, v) # kvs) = (distinct_keys v \<and> distinct_keys_items kvs)"

section \<open>Tables\<close>

text \<open>
  A \<open>pandas.DataFrame\<close>: the row labels (\<open>df.index\<close>, the keys of the rows) and the
  columns in their order, each column with one value per row.
\<close>

record dataframe =
  df_index :: "pyval list"
  df_columns :: "(string \<times> pyval list) list"

text \<open>\<open>df[col]\<close> raises \<open>KeyError\<close> when the table has no such column;
  \<open>df[col] = values\<close> replaces the column where it stands.\<close>

definition df_getitem :: "dataframe \<Rightarrow> string \<Rightarrow> error + pyval list" where
  "df_getitem df col =
     (case map_of (df_columns df) col of None \<Rightarrow> Inl (KeyError col) | Some vs \<Rightarrow> Inr vs)"

definition df_setitem :: "dataframe \<Rightarrow> string \<Rightarrow> pyval list \<Rightarrow> dataframe" where
  "df_setitem df col vs = df\<lparr>df_columns := AList.update col vs (df_columns df)\<rparr>"

text \<open>\<open>Series.apply(f)\<close>: \<open>f\<close> on every value in row order; the first exception
  ends the traversal.\<close>

fun series_apply :: "(pyval \<Rightarrow> error + pyval) \<Rightarrow> pyval list \<Rightarrow> error + pyval list" where
  "series_apply f [] = Inr []"
| "series_apply f (v # vs) =
     (case f v of
        Inl e \<Rightarrow> Inl e
      | Inr w \<Rightarrow> (case series_apply f vs of Inl e \<Rightarrow> Inl e | Inr ws \<Rightarrow> Inr (w # ws)))"

text \<open>\<open>next(df.iterrows())\<close>: the first row as its (label, value) items in column
  order; \<open>StopIteration\<close> on a table without rows.\<close>

definition first_row :: "dataframe \<Rightarrow> error + row" where
  "first_row df =
     (if df_index df = [] then Inl StopIteration
      else Inr (map (\<lambda>(label, vs). (label, hd vs)) (df_columns df)))"

text \<open>\<open>df.index[i]\<close> with Python's indexing: a negative position counts from the
  end, a position out of range raises \<open>IndexError\<close>.\<close>

definition index_at :: "dataframe \<Rightarrow> int \<Rightarrow> error + pyval" where
  "index_at df i =
     (let n = int (length (df_index df)); j = (if i < 0 then n + i else i)
      in if 0 \<le> j \<and> j < n then Inr (df_index df ! nat j) else Inl IndexError)"

section \<open>The JSON column codec\<close>

text \<open>
  The standard library's \<open>json\<close> module is not part of the repository; the codec takes
  it as a parameter. \<open>dumps\<close> is \<open>json.dumps(o)\<close>, \<open>dumps_sorted\<close> is
  \<open>json.dumps(o, sort_keys=True)\<close> and \<open>loads\<close> is \<open>json.loads(s)\<close>, which raises
  \<open>JSONDecodeError\<close> on malformed text.
\<close>

record json_module =
  dumps :: "pyval \<Rightarrow> error + string"
  dumps_sorted :: "pyval \<Rightarrow> error + string"
  loads :: "pyval \<Rightarrow> error + pyval"

definition is_nested :: "pyval \<Rightarrow> bool" where
  "is_nested v \<longleftrightarrow>
     (isinstance_Mapping v \<or> isinstance_Sequence v) \<and> \<not> isinstance_str_bytes_bytearray v"

fun collect_labels :: "row \<Rightarrow> string list \<Rightarrow> string list" where
  "collect_labels [] res = res"
| "collect_labels ((label, v) # items) res =
     (if is_nested v then collect_labels items (res @ [label]) else collect_labels items res)"

definition get_json_serializable_cols :: "dataframe \<Rightarrow> error + string list" where
  "get_json_serializable_cols df =
     (case first_row df of Inl e \<Rightarrow> Inl e | Inr r \<Rightarrow> Inr (collect_labels r []))"

definition encode_cell :: "json_module \<Rightarrow> pyval \<Rightarrow> error + pyval" where
  "encode_cell json v = (case dumps json v of Inl e \<Rightarrow> Inl e | Inr s \<Rightarrow> Inr (PStr s))"

text \<open>\<open>_serialize_json_cols\<close> works on the table it is given and returns it: the result
  is the new content of that table.\<close>

fun serialize_json_cols :: "json_module \<Rightarrow> dataframe \<Rightarrow> string list \<Rightarrow> error + dataframe" where
  "serialize_json_cols json df [] = Inr df"
| "serialize_json_cols json df (json_col # json_cols) =
     (case df_getitem df json_col of
        Inl e \<Rightarrow> Inl e
      | Inr vs \<Rightarrow>
          (case series_apply (encode_cell json) vs of
             Inl e \<Rightarrow> Inl e
           | Inr ws \<Rightarrow> serialize_json_cols json (df_setitem df json_col ws) json_cols))"

definition deserializer :: "json_module \<Rightarrow> pyval \<Rightarrow> error + pyval" where
  "deserializer json s = (if s \<noteq> PNone then loads json s else Inr PNone)"

definition json_error_message :: "string \<Rightarrow> string" where
  "json_error_message json_col =
     ''Invalid json string in column '' @ [CHR 0x27] @ json_col @ [CHR 0x27] @ ''!''"

text \<open>
  \<open>_deserialize_json_cols\<close> tests inside its loop whether the data is a table or a
  mutable mapping; the two functions below are its two branches, each with the
  loop and the \<open>try\<close>/\<open>except\<close> of the source. Like the serializer, each returns the new
  content of the object it was given.
\<close>

definition reraise :: "string \<Rightarrow> error \<Rightarrow> error" where
  "reraise json_col e =
     (if e = JSONDecodeError then JSONError (json_error_message json_col) else e)"

fun deserialize_json_cols_df ::
  "json_module \<Rightarrow> dataframe \<Rightarrow> string list \<Rightarrow> error + dataframe" where
  "deserialize_json_cols_df json df [] = Inr df"
| "deserialize_json_cols_df json df (json_col # json_cols) =
     (case df_getitem df json_col of
        Inl e \<Rightarrow> Inl (reraise json_col e)
      | Inr vs \<Rightarrow>
          (case series_apply (deserializer json) vs of
             Inl e \<Rightarrow> Inl (reraise json_col e)
           | Inr ws \<Rightarrow> deserialize_json_cols_df json (df_setitem df json_col ws) json_cols))"

fun deserialize_json_cols_mapping ::
  "json_module \<Rightarrow> row \<Rightarrow> string list \<Rightarrow> error + row" where
  "deserialize_json_cols_mapping json m [] = Inr m"
| "deserialize_json_cols_mapping json m (json_col # json_cols) =
     (case map_of m json_col of
        None \<Rightarrow> deserialize_json_cols_mapping json m json_cols
      | Some s \<Rightarrow>
          (case deserializer json s of
             Inl e \<Rightarrow> Inl (reraise json_col e)
           | Inr v \<Rightarrow>
               deserialize_json_cols_mapping json (AList.update json_col v m) json_cols))"

section \<open>The table editor\<close>

text \<open>
  The calls the editor makes on the connection: \<open>modify_item(key, changes)\<close>,
  \<open>put_item(key, item)\<close> and \<open>del_item(key)\<close>. The connection is outside the page; it is
  a parameter that takes a call and the store, and returns the exception raised, if
  any, and the store after the call.
\<close>

datatype store_call =
    ModifyItem pyval row
  | PutItem pyval row
  | DelItem pyval

type_synonym 'c connection = "store_call \<Rightarrow> 'c \<Rightarrow> error option \<times> 'c"

text \<open>What the page shows: the grid with the table handed to it, and the message of
  \<open>st.error\<close>.\<close>

datatype ui_event = Grid dataframe | ErrorBox string

text \<open>The widget's state after a render (\<open>st.session_state[widget_key]\<close>): the edited
  rows by position, the added rows, the positions of the deleted rows.\<close>

record edit_info =
  edited_rows :: "(int \<times> row) list"
  added_rows :: "row list"
  deleted_rows :: "int list"

text \<open>The grid widget is outside the page too: given the displayed table it returns the
  edited table and leaves its state in the session.\<close>

type_synonym data_editor = "dataframe \<Rightarrow> dataframe \<times> edit_info"

text \<open>
  The session. \<open>objs\<close> holds the table objects by address and \<open>next_obj\<close> is the next
  free address; \<open>data\<close> is the address of the snapshot \<open>self.df\<close>. The three
  \<open>processed\<close> fields are the record of applied edits. \<open>calls\<close> lists every call made
  on the connection, in order, and \<open>ui\<close> what was shown.
\<close>

record 'c session =
  objs :: "nat \<Rightarrow> dataframe"
  next_obj :: nat
  data :: nat
  processed_edited_rows :: "int \<Rightarrow> row option"
  processed_added_rows :: "string list"
  processed_deleted_rows :: "pyval list"
  store :: 'c
  calls :: "store_call list"
  ui :: "ui_event list"

definition self_df :: "'c session \<Rightarrow> dataframe" where
  "self_df s = objs s (data s)"

definition invoke :: "'c connection \<Rightarrow> store_call \<Rightarrow> 'c session \<Rightarrow> error option \<times> 'c session" where
  "invoke conn c s =
     (case conn c (store s) of
        (r, st') \<Rightarrow> (r, s\<lparr>store := st', calls := calls s @ [c]\<rparr>))"

text \<open>\<open>x in xs\<close> compares with \<open>==\<close>.\<close>

definition py_in :: "pyval \<Rightarrow> pyval list \<Rightarrow> bool" where
  "py_in x xs = list_ex (py_eq x) xs"

definition already_processed :: "'c session \<Rightarrow> int \<Rightarrow> row \<Rightarrow> bool" where
  "already_processed s idx edited_row =
     (case processed_edited_rows s idx of
        None \<Rightarrow> False
      | Some r \<Rightarrow> py_eq (PDict r) (PDict edited_row))"

text \<open>One pass of the loop over the edited rows, and the loop.\<close>

definition edited_row_step ::
  "json_module \<Rightarrow> 'c connection \<Rightarrow> string list \<Rightarrow> int \<times> row \<Rightarrow> 'c session
     \<Rightarrow> error option \<times> 'c session" where
  "edited_row_step json conn json_cols entry s =
     (case entry of (idx, edited_row) \<Rightarrow>
        (case index_at (self_df s) idx of
           Inl e \<Rightarrow> (Some e, s)
         | Inr index_val \<Rightarrow>
             (case deserialize_json_cols_mapping json edited_row json_cols of
                Inl e \<Rightarrow> (Some e, s)
              | Inr edited_row' \<Rightarrow>
                  if already_processed s idx edited_row' then (None, s)
                  else
                    (case invoke conn (ModifyItem index_val edited_row') s of
                       (Some e, s') \<Rightarrow> (Some e, s')
                     | (None, s') \<Rightarrow>
                         (None, s'\<lparr>processed_edited_rows :=
                                     (processed_edited_rows s')(idx \<mapsto> edited_row')\<rparr>)))))"

fun for_each ::
  "('a \<Rightarrow> 's \<Rightarrow> error option \<times> 's) \<Rightarrow> 'a list \<Rightarrow> 's \<Rightarrow> error option \<times> 's" where
  "for_each body [] s = (None, s)"
| "for_each body (x # xs) s =
     (case body x s of
        (Some e, s') \<Rightarrow> (Some e, s')
      | (None, s') \<Rightarrow> for_each body xs s')"

text \<open>\<open>added_row.pop("_index")\<close>: the value under the key and the mapping without it;
  \<open>KeyError\<close> when the key is missing.\<close>

definition pop_index :: "row \<Rightarrow> error + pyval \<times> row" where
  "pop_index r =
     (case map_of r ''_index'' of
        None \<Rightarrow> Inl (KeyError ''_index'')
      | Some k \<Rightarrow> Inr (k, AList.delete ''_index'' r))"

definition added_row_step ::
  "json_module \<Rightarrow> 'c connection \<Rightarrow> string list \<Rightarrow> row \<Rightarrow> 'c session
     \<Rightarrow> error option \<times> 'c session" where
  "added_row_step json conn json_cols added_row s =
     (case deserialize_json_cols_mapping json added_row json_cols of
        Inl e \<Rightarrow> (Some e, s)
      | Inr added_row' \<Rightarrow>
          (case pop_index added_row' of
             Inl e \<Rightarrow> (Some e, s)
           | Inr (keys, item) \<Rightarrow>
               (case dumps_sorted json (PDict item) of
                  Inl e \<Rightarrow> (Some e, s)
                | Inr added_row_repr \<Rightarrow>
                    if added_row_repr \<in> set (processed_added_rows s) then (None, s)
                    else
                      (case invoke conn (PutItem keys item) s of
                         (Some e, s') \<Rightarrow> (Some e, s')
                       | (None, s') \<Rightarrow>
                           (None, s'\<lparr>processed_added_rows :=
                                       processed_added_rows s' @ [added_row_repr]\<rparr>)))))"

definition deleted_row_step ::
  "'c connection \<Rightarrow> int \<Rightarrow> 'c session \<Rightarrow> error option \<times> 'c session" where
  "deleted_row_step conn idx s =
     (case index_at (self_df s) idx of
        Inl e \<Rightarrow> (Some e, s)
      | Inr index_val \<Rightarrow>
          if py_in index_val (processed_deleted_rows s) then (None, s)
          else
            (case invoke conn (DelItem index_val) s of
               (Some e, s') \<Rightarrow> (Some e, s')
             | (None, s') \<Rightarrow>
                 (None, s'\<lparr>processed_deleted_rows :=
                             processed_deleted_rows s' @ [index_val]\<rparr>)))"

definition process_edits ::
  "json_module \<Rightarrow> 'c connection \<Rightarrow> edit_info \<Rightarrow> string list \<Rightarrow> 'c session
     \<Rightarrow> error option \<times> 'c session" where
  "process_edits json conn info json_cols s =
     (case for_each (edited_row_step json conn json_cols) (edited_rows info) s of
        (Some e, s1) \<Rightarrow> (Some e, s1)
      | (None, s1) \<Rightarrow>
          (case for_each (added_row_step json conn json_cols) (added_rows info) s1 of
             (Some e, s2) \<Rightarrow> (Some e, s2)
           | (None, s2) \<Rightarrow> for_each (deleted_row_step conn) (deleted_rows info) s2))"

text \<open>How a run of \<open>edit\<close> ends: it returns the edited table, it stops the script
  after showing an error (\<open>st.error\<close>, \<open>st.stop\<close>), or an exception leaves it.\<close>

datatype outcome = Returned dataframe | Stopped | Raised error

text \<open>\<open>self.df.copy()\<close>: a new table object with the content of the snapshot.\<close>

definition df_copy :: "nat \<Rightarrow> 'c session \<Rightarrow> nat \<times> 'c session" where
  "df_copy a s =
     (next_obj s, s\<lparr>objs := (objs s)(next_obj s := objs s a), next_obj := Suc (next_obj s)\<rparr>)"

text \<open>\<open>_serialize_json_cols\<close> on the table object at an address: the object is changed
  in place. When the call raises, the object is a local copy nobody holds any more, and
  it is left as it was.\<close>

definition serialize_at ::
  "json_module \<Rightarrow> nat \<Rightarrow> string list \<Rightarrow> 'c session \<Rightarrow> error option \<times> 'c session" where
  "serialize_at json a json_cols s =
     (case serialize_json_cols json (objs s a) json_cols of
        Inl e \<Rightarrow> (Some e, s)
      | Inr df' \<Rightarrow> (None, s\<lparr>objs := (objs s)(a := df')\<rparr>))"

definition edit ::
  "json_module \<Rightarrow> 'c connection \<Rightarrow> data_editor \<Rightarrow> 'c session \<Rightarrow> outcome \<times> 'c session" where
  "edit json conn widget s =
     (case get_json_serializable_cols (self_df s) of
        Inl e \<Rightarrow> (Raised e, s)
      | Inr json_cols \<Rightarrow>
          (case df_copy (data s) s of (a, s1) \<Rightarrow>
             (case serialize_at json a json_cols s1 of
                (Some e, s2) \<Rightarrow> (Raised e, s2)
              | (None, s2) \<Rightarrow>
                  (case widget (objs s2 a) of (edited_df, info) \<Rightarrow>
                     (let s3 = s2\<lparr>ui := ui s2 @ [Grid (objs s2 a)]\<rparr> in
                      case deserialize_json_cols_df json edited_df json_cols of
                        Inl (JSONError msg) \<Rightarrow> (Stopped, s3\<lparr>ui := ui s3 @ [ErrorBox msg]\<rparr>)
                      | Inl e \<Rightarrow> (Raised e, s3)
                      | Inr edited_df' \<Rightarrow>
                          (case process_edits json conn info json_cols s3 of
                             (Some e, s4) \<Rightarrow> (Raised e, s4)
                           | (None, s4) \<Rightarrow> (Returned edited_df', s4)))))))"

section \<open>The json module on the examples\<close>

text \<open>
  The examples need a \<open>json\<close> module to run with. \<open>py_json\<close> follows the standard
  library's encoder (separators \<open>", "\<close> and \<open>": "\<close>, non-printable characters
  escaped, a tuple written as an array, bytes refused with \<open>TypeError\<close>) and decoder on
  texts without floating-point numbers. It is used on the concrete inputs of the
  examples only; every general statement holds for any \<open>json_module\<close>.
\<close>

fun digits :: "nat \<Rightarrow> string" where
  "digits n = (if n < 10 then [char_of (48 + n)] else digits (n div 10) @ [char_of (48 + n mod 10)])"

definition int_repr :: "int \<Rightarrow> string" where
  "int_repr i = (if i < 0 then CHR ''-'' # digits (nat (- i)) else digits (nat i))"

definition hex_digit :: "nat \<Rightarrow> char" where
  "hex_digit n = (if n < 10 then char_of (48 + n) else char_of (87 + n))"

definition escape_char :: "char \<Rightarrow> string" where
  "escape_char c =
     (if c = CHR 0x22 then [CHR 0x5C, CHR 0x22]
      else if c = CHR 0x5C then [CHR 0x5C, CHR 0x5C]
      else if c = CHR 0x0A then [CHR 0x5C, CHR ''n'']
      else if c = CHR 0x0D then [CHR 0x5C, CHR ''r'']
      else if c = CHR 0x09 then [CHR 0x5C, CHR ''t'']
      else if c = CHR 0x08 then [CHR 0x5C, CHR ''b'']
      else if c = CHR 0x0C then [CHR 0x5C, CHR ''f'']
      else if (of_char c :: nat) < 32 \<or> 126 < (of_char c :: nat)
        then [CHR 0x5C, CHR ''u'', CHR ''0'', CHR ''0'',
              hex_digit (of_char c div 16), hex_digit (of_char c mod 16)]
      else [c])"

definition str_repr :: "string \<Rightarrow> string" where
  "str_repr s = [CHR 0x22] @ concat (map escape_char s) @ [CHR 0x22]"

fun join :: "string \<Rightarrow> string list \<Rightarrow> string" where
  "join sep [] = []"
| "join sep [x] = x"
| "join sep (x # y # ys) = x @ sep @ join sep (y # ys)"

fun those_strings :: "(error + string) list \<Rightarrow> error + string list" where
  "those_strings [] = Inr []"
| "those_strings (Inl e # _) = Inl e"
| "those_strings (Inr s # rs) = (case those_strings rs of Inl e \<Rightarrow> Inl e | Inr ss \<Rightarrow> Inr (s # ss))"

fun those_items :: "(string \<times> (error + string)) list \<Rightarrow> error + (string \<times> string) list" where
  "those_items [] = Inr []"
| "those_items ((k, Inl e) # _) = Inl e"
| "those_items ((k, Inr s) # rs) =
     (case those_items rs of Inl e \<Rightarrow> Inl e | Inr ss \<Rightarrow> Inr ((k, s) # ss))"

text \<open>With \<open>sort_keys=True\<close> the items are written in the order of their keys: strings
  compare character by character by code point, a proper prefix first.\<close>

definition sort_items :: "(string \<times> 'a) list \<Rightarrow> (string \<times> 'a) list" where
  "sort_items kvs = sort_key fst kvs"

fun encode :: "bool \<Rightarrow> pyval \<Rightarrow> error + string" where
  "encode sk PNone = Inr ''null''"
| "encode sk (PBool b) = Inr (if b then ''true'' else ''false'')"
| "encode sk (PInt i) = Inr (int_repr i)"
| "encode sk (PStr s) = Inr (str_repr s)"
| "encode sk (PBytes _) = Inl TypeError"
| "encode sk (PByteArray _) = Inl TypeError"
| "encode sk (PList vs) =
     (case those_strings (map (encode sk) vs) of
        Inl e \<Rightarrow> Inl e
      | Inr ss \<Rightarrow> Inr (''['' @ join '', '' ss @ '']''))"
| "encode sk (PTuple vs) =
     (case those_strings (map (encode sk) vs) of
        Inl e \<Rightarrow> Inl e
      | Inr ss \<Rightarrow> Inr (''['' @ join '', '' ss @ '']''))"
| "encode sk (PDict kvs) =
     (case those_items (map (\<lambda>(k, v). (k, encode sk v)) kvs) of
        Inl e \<Rightarrow> Inl e
      | Inr kss \<Rightarrow>
          Inr (''{'' @ join '', '' (map (\<lambda>(k, s). str_repr k @ '': '' @ s)
                                     (if sk then sort_items kss else kss)) @ ''}''))"


definition is_ws :: "char \<Rightarrow> bool" where
  "is_ws c \<longleftrightarrow> c = CHR '' '' \<or> c = CHR 0x09 \<or> c = CHR 0x0A \<or> c = CHR 0x0D"

definition skip_ws :: "string \<Rightarrow> string" where
  "skip_ws s = dropWhile is_ws s"

definition is_digit :: "char \<Rightarrow> bool" where
  "is_digit c \<longleftrightarrow> 48 \<le> (of_char c :: nat) \<and> (of_char c :: nat) \<le> 57"

definition hex_value :: "char \<Rightarrow> nat option" where
  "hex_value c =
     (let n = (of_char c :: nat) in
      if 48 \<le> n \<and> n \<le> 57 then Some (n - 48)
      else if 97 \<le> n \<and> n \<le> 102 then Some (n - 87)
      else if 65 \<le> n \<and> n \<le> 70 then Some (n - 55)
      else None)"

definition digits_value :: "string \<Rightarrow> nat" where
  "digits_value ds = foldl (\<lambda>n c. 10 * n + (of_char c - 48)) 0 ds"

text \<open>The character an escape sequence stands for, from the text after the backslash.\<close>

definition unescape :: "string \<Rightarrow> (char \<times> string) option" where
  "unescape s =
     (case s of
        [] \<Rightarrow> None
      | d # r \<Rightarrow>
          if d = CHR 0x22 \<or> d = CHR 0x5C \<or> d = CHR ''/'' then Some (d, r)
          else if d = CHR ''n'' then Some (CHR 0x0A, r)
          else if d = CHR ''r'' then Some (CHR 0x0D, r)
          else if d = CHR ''t'' then Some (CHR 0x09, r)
          else if d = CHR ''b'' then Some (CHR 0x08, r)
          else if d = CHR ''f'' then Some (CHR 0x0C, r)
          else if d = CHR ''u'' \<and> take 2 r = ''00'' then
            (case map hex_value (take 2 (drop 2 r)) of
               [Some h, Some l] \<Rightarrow> Some (char_of (16 * h + l), drop 4 r)
             | _ \<Rightarrow> None)
          else None)"

text \<open>The characters of a string after its opening quote, up to the closing one. The
  first argument bounds the number of steps; the length of the text is enough.\<close>

fun scan_string :: "nat \<Rightarrow> string \<Rightarrow> string \<Rightarrow> (string \<times> string) option" where
  "scan_string 0 s acc = None"
| "scan_string (Suc n) s acc =
     (case s of
        [] \<Rightarrow> None
      | c # r \<Rightarrow>
          if c = CHR 0x22 then Some (acc, r)
          else if (of_char c :: nat) < 32 then None
          else if c = CHR 0x5C then
            (case unescape r of None \<Rightarrow> None | Some (x, r') \<Rightarrow> scan_string n r' (acc @ [x]))
          else scan_string n r (acc @ [c]))"

definition scan_str :: "string \<Rightarrow> (string \<times> string) option" where
  "scan_str s = scan_string (length s) s []"

text \<open>An integer: an optional minus sign and digits without a leading zero. A fraction
  or an exponent after it would make a floating-point number, which the model leaves out.\<close>

definition scan_int :: "string \<Rightarrow> (int \<times> string) option" where
  "scan_int s =
     (let neg = (take 1 s = ''-'');
          t = (if neg then drop 1 s else s);
          ds = takeWhile is_digit t;
          r = dropWhile is_digit t
      in if ds = [] \<or> (1 < length ds \<and> hd ds = CHR ''0'')
            \<or> take 1 r = ''.'' \<or> take 1 r = ''e'' \<or> take 1 r = ''E''
         then None
         else Some (if neg then - int (digits_value ds) else int (digits_value ds), r))"

text \<open>A value that is not an array or an object.\<close>

definition decode_atom :: "string \<Rightarrow> (pyval \<times> string) option" where
  "decode_atom t =
     (if take 4 t = ''null'' then Some (PNone, drop 4 t)
      else if take 4 t = ''true'' then Some (PBool True, drop 4 t)
      else if take 5 t = ''false'' then Some (PBool False, drop 5 t)
      else if take 1 t = [CHR 0x22] then
        (case scan_str (drop 1 t) of None \<Rightarrow> None | Some (x, r) \<Rightarrow> Some (PStr x, r))
      else (case scan_int t of None \<Rightarrow> None | Some (i, r) \<Rightarrow> Some (PInt i, r)))"

text \<open>The key of an object's item and the text after its colon.\<close>

definition decode_key :: "string \<Rightarrow> (string \<times> string) option" where
  "decode_key s =
     (let t = skip_ws s in
      if take 1 t \<noteq> [CHR 0x22] then None
      else
        (case scan_str (drop 1 t) of
           None \<Rightarrow> None
         | Some (k, r) \<Rightarrow> if take 1 (skip_ws r) = '':'' then Some (k, drop 1 (skip_ws r)) else None))"

text \<open>The decoder. The first argument bounds the depth of the calls.\<close>

fun decode :: "nat \<Rightarrow> string \<Rightarrow> (pyval \<times> string) option"
  and decode_elems :: "nat \<Rightarrow> string \<Rightarrow> pyval list \<Rightarrow> (pyval \<times> string) option"
  and decode_items :: "nat \<Rightarrow> string \<Rightarrow> (string \<times> pyval) list \<Rightarrow> (pyval \<times> string) option" where
  "decode 0 s = None"
| "decode (Suc n) s =
     (if take 1 (skip_ws s) = ''['' then
        (if take 1 (skip_ws (drop 1 (skip_ws s))) = '']''
         then Some (PList [], drop 1 (skip_ws (drop 1 (skip_ws s))))
         else decode_elems n (drop 1 (skip_ws s)) [])
      else if take 1 (skip_ws s) = ''{'' then
        (if take 1 (skip_ws (drop 1 (skip_ws s))) = ''}''
         then Some (PDict [], drop 1 (skip_ws (drop 1 (skip_ws s))))
         else decode_items n (drop 1 (skip_ws s)) [])
      else decode_atom (skip_ws s))"
| "decode_elems 0 s acc = None"
| "decode_elems (Suc n) s acc =
     (case decode n s of
        None \<Rightarrow> None
      | Some (v, r) \<Rightarrow>
          if take 1 (skip_ws r) = '','' then decode_elems n (drop 1 (skip_ws r)) (acc @ [v])
          else if take 1 (skip_ws r) = '']'' then Some (PList (acc @ [v]), drop 1 (skip_ws r))
          else None)"
| "decode_items 0 s acc = None"
| "decode_items (Suc n) s acc =
     (case decode_key s of
        None \<Rightarrow> None
      | Some (k, r) \<Rightarrow>
          (case decode n r of
             None \<Rightarrow> None
           | Some (v, r') \<Rightarrow>
               if take 1 (skip_ws r') = '',''
               then decode_items n (drop 1 (skip_ws r')) (AList.update k v acc)
               else if take 1 (skip_ws r') = ''}''
               then Some (PDict (AList.update k v acc), drop 1 (skip_ws r'))
               else None))"

fun text_of :: "pyval \<Rightarrow> string option" where
  "text_of (PStr s) = Some s"
| "text_of (PBytes s) = Some s"
| "text_of (PByteArray s) = Some s"
| "text_of _ = None"

definition py_loads :: "pyval \<Rightarrow> error + pyval" where
  "py_loads x =
     (case text_of x of
        None \<Rightarrow> Inl TypeError
      | Some s \<Rightarrow>
          (case decode (2 * length s + 2) s of
             None \<Rightarrow> Inl JSONDecodeError
           | Some (v, r) \<Rightarrow> if skip_ws r = [] then Inr v else Inl JSONDecodeError))"

definition py_json :: json_module where
  "py_json = \<lparr>dumps = encode False, dumps_sorted = encode True, loads = py_loads\<rparr>"

section \<open>Example inputs\<close>

text \<open>A session that starts on a table: the snapshot is the only table object, nothing
  has been applied, called or shown yet.\<close>

definition new_session :: "dataframe \<Rightarrow> 'c \<Rightarrow> 'c session" where
  "new_session df st =
     \<lparr>objs = (\<lambda>_. df), next_obj = 1, data = 0,
      processed_edited_rows = Map.empty, processed_added_rows = [],
      processed_deleted_rows = [], store = st, calls = [], ui = []\<rparr>"

text \<open>The table of one row with key \<open>a\<close> and \<open>tags = ["x", "y"]\<close>, and a table
  without rows.\<close>

definition tags_table :: dataframe where
  "tags_table =
     \<lparr>df_index = [PStr ''a''],
      df_columns = [(''tags'', [PList [PStr ''x'', PStr ''y'']]), (''n'', [PInt 1])]\<rparr>"

definition empty_table :: dataframe where
  "empty_table = \<lparr>df_index = [], df_columns = [(''tags'', [])]\<rparr>"

text \<open>A connection whose calls all succeed and one whose calls all raise; the store
  counts the calls that went through.\<close>

definition ok_store :: "nat connection" where
  "ok_store c st = (None, Suc st)"

definition failing_store :: "nat connection" where
  "failing_store c st = (Some (StoreError ''unavailable''), st)"

text \<open>The grid when the user has done nothing: the table comes back as shown and the
  diff is empty.\<close>

definition no_edits :: edit_info where
  "no_edits = \<lparr>edited_rows = [], added_rows = [], deleted_rows = []\<rparr>"

definition idle_widget :: data_editor where
  "idle_widget df = (df, no_edits)"

text \<open>The diff after the user deleted the first row.\<close>

definition delete_first :: edit_info where
  "delete_first = \<lparr>edited_rows = [], added_rows = [], deleted_rows = [0]\<rparr>"

text \<open>The table as the grid shows it, with the \<open>tags\<close> column encoded; a grid whose
  user deleted the first row; an edit of column \<open>n\<close>; a new row with key \<open>b\<close>.\<close>

definition tags_display :: dataframe where
  "tags_display =
     \<lparr>df_index = [PStr ''a''],
      df_columns = [(''tags'', [PStr ''[\"x\", \"y\"]'']), (''n'', [PInt 1])]\<rparr>"

definition deleting_widget :: data_editor where
  "deleting_widget df = (df, delete_first)"

definition edited_n :: row where
  "edited_n = [(''n'', PInt 2)]"

definition added_b :: row where
  "added_b = [(''_index'', PStr ''b''), (''n'', PInt 1)]"

text \<open>The diff after the user added the row with key \<open>b\<close>.\<close>

definition add_b :: edit_info where
  "add_b = \<lparr>edited_rows = [], added_rows = [added_b], deleted_rows = []\<rparr>"

text \<open>The diff after the user changed \<open>tags\<close> of the first row to
  \<open>["x", "y", "z"]\<close>, the changed columns as the grid reports them and as decoded.\<close>

definition edited_tags :: row where
  "edited_tags = [(''tags'', PStr ''[\"x\", \"y\", \"z\"]'')]"

definition decoded_tags :: row where
  "decoded_tags = [(''tags'', PList [PStr ''x'', PStr ''y'', PStr ''z''])]"

definition edit_tags :: edit_info where
  "edit_tags = \<lparr>edited_rows = [(0, edited_tags)], added_rows = [], deleted_rows = []\<rparr>"

text \<open>Changed columns and a displayed table whose \<open>tags\<close> text is not JSON.\<close>

definition bad_tags :: row where
  "bad_tags = [(''tags'', PStr ''{bad'')]"

definition bad_display :: dataframe where
  "bad_display =
     \<lparr>df_index = [PStr ''a''],
      df_columns = [(''tags'', [PStr ''{bad'']), (''n'', [PInt 1])]\<rparr>"

text \<open>A table of two rows, with keys \<open>a\<close> and \<open>b\<close>, and the same table as the grid shows
  it.\<close>

definition two_rows :: dataframe where
  "two_rows =
     \<lparr>df_index = [PStr ''a'', PStr ''b''],
      df_columns = [(''tags'', [PList [PStr ''x'', PStr ''y''], PList [PStr ''z'']]),
                    (''n'', [PInt 1, PInt 2])]\<rparr>"

definition two_rows_display :: dataframe where
  "two_rows_display =
     \<lparr>df_index = [PStr ''a'', PStr ''b''],
      df_columns = [(''tags'', [PStr ''[\"x\", \"y\"]'', PStr ''[\"z\"]'']),
                    (''n'', [PInt 1, PInt 2])]\<rparr>"

text \<open>Grids that hand the table back as shown and report one change of the user: the new
  \<open>tags\<close> of the first row, the new row \<open>b\<close>.\<close>

definition editing_widget :: data_editor where
  "editing_widget df = (df, edit_tags)"

definition adding_widget :: data_editor where
  "adding_widget df = (df, add_b)"

text \<open>Diffs on the table of two rows: the second row deleted, reported by its position
  from the start and from the end; the first row deleted; the \<open>tags\<close> of the second row
  changed.\<close>

definition delete_second :: edit_info where
  "delete_second = \<lparr>edited_rows = [], added_rows = [], deleted_rows = [1]\<rparr>"

definition delete_last_twice :: edit_info where
  "delete_last_twice = \<lparr>edited_rows = [], added_rows = [], deleted_rows = [1, - 1]\<rparr>"

definition edit_second :: edit_info where
  "edit_second = \<lparr>edited_rows = [(1, edited_tags)], added_rows = [], deleted_rows = []\<rparr>"

text \<open>The row \<open>b\<close> with two columns, as the grid reports it and with the columns in
  another order.\<close>

definition added_b2 :: row where
  "added_b2 = [(''_index'', PStr ''b''), (''n'', PInt 1), (''m'', PInt 2)]"

definition added_b2_reordered :: row where
  "added_b2_reordered = [(''m'', PInt 2), (''_index'', PStr ''b''), (''n'', PInt 1)]"

definition add_b2_twice :: edit_info where
  "add_b2_twice =
     \<lparr>edited_rows = [], added_rows = [added_b2, added_b2_reordered], deleted_rows = []\<rparr>"

text \<open>A table with a tuple in the column \<open>tags\<close>.\<close>

definition tuple_table :: dataframe where
  "tuple_table =
     \<lparr>df_index = [PStr ''a''], df_columns = [(''tags'', [PTuple [PStr ''x'', PStr ''y'']])]\<rparr>"

text \<open>On the table of two rows the user set \<open>n\<close> of the first row to 2, typed \<open>{bad\<close> into
  \<open>tags\<close> of the second row and then deleted the second row: the edited table holds the
  first row only, the diff holds all three changes.\<close>

definition bad_edit_then_delete :: edit_info where
  "bad_edit_then_delete =
     \<lparr>edited_rows = [(0, edited_n), (1, bad_tags)], added_rows = [], deleted_rows = [1]\<rparr>"

definition first_row_edited :: dataframe where
  "first_row_edited =
     \<lparr>df_index = [PStr ''a''],
      df_columns = [(''tags'', [PStr ''[\"x\", \"y\"]'']), (''n'', [PInt 2])]\<rparr>"

definition careless_widget :: data_editor where
  "careless_widget df = (first_row_edited, bad_edit_then_delete)"

text \<open>The same grid when the user did not delete the row: the edited table shows the
  text \<open>{bad\<close>.\<close>

definition bad_second_row :: dataframe where
  "bad_second_row =
     \<lparr>df_index = [PStr ''a'', PStr ''b''],
      df_columns = [(''tags'', [PStr ''[\"x\", \"y\"]'', PStr ''{bad'']), (''n'', [PInt 2, PInt 2])]\<rparr>"

definition bad_edit :: edit_info where
  "bad_edit = \<lparr>edited_rows = [(0, edited_n), (1, bad_tags)], added_rows = [], deleted_rows = []\<rparr>"

definition typing_widget :: data_editor where
  "typing_widget df = (bad_second_row, bad_edit)"

section \<open>Equality of values\<close>

lemma py_eq_list_refl:
  "(\<And>v. v \<in> set vs \<Longrightarrow> py_eq v v) \<Longrightarrow> py_eq_list vs vs"
  by (induction vs) auto

lemma py_eq_items_sub:
  "\<forall>(k, v)\<in>set kvs. map_of kws k = Some v \<and> py_eq v v \<Longrightarrow> py_eq_items kvs kws"
  by (induction kvs) auto

lemma distinct_keys_list_iff: "distinct_keys_list vs \<longleftrightarrow> (\<forall>v\<in>set vs. distinct_keys v)"
  by (induction vs) auto

lemma distinct_keys_items_iff:
  "distinct_keys_items kvs \<longleftrightarrow> (\<forall>(k, v)\<in>set kvs. distinct_keys v)"
  by (induction kvs) auto

lemma py_eq_refl: "distinct_keys v \<Longrightarrow> py_eq v v"
proof (induction v)
  case (PList vs)
  then show ?case by (auto simp: distinct_keys_list_iff intro: py_eq_list_refl)
next
  case (PTuple vs)
  then show ?case by (auto simp: distinct_keys_list_iff intro: py_eq_list_refl)
next
  case (PDict kvs)
  from PDict.prems have d: "distinct (map fst kvs)" and w: "distinct_keys_items kvs" by auto
  have "map_of kvs k = Some v \<and> py_eq v v" if kv: "(k, v) \<in> set kvs" for k v
  proof -
    from d kv have "map_of kvs k = Some v" by simp
    moreover from w kv have "distinct_keys v" by (auto simp: distinct_keys_items_iff)
    with PDict.IH kv have "py_eq v v" by (auto simp: snds.simps)
    ultimately show ?thesis by simp
  qed
  then have "py_eq_items kvs kvs" by (intro py_eq_items_sub) auto
  then show ?case by simp
qed auto

section \<open>Loops and what a step leaves alone\<close>

lemma for_each_append:
  "for_each body (xs @ ys) s =
     (case for_each body xs s of (Some e, s') \<Rightarrow> (Some e, s') | (None, s') \<Rightarrow> for_each body ys s')"
  by (induction xs arbitrary: s) (auto split: prod.splits option.splits)

lemma for_each_invariant:
  assumes "for_each body xs s = (r, s')" and "I s"
    and "\<And>x u r u'. x \<in> set xs \<Longrightarrow> I u \<Longrightarrow> body x u = (r, u') \<Longrightarrow> I u'"
  shows "I s'"
  using assms
proof (induction xs arbitrary: s)
  case Nil
  then show ?case by simp
next
  case (Cons x xs)
  obtain r1 s1 where b: "body x s = (r1, s1)" by (cases "body x s")
  with Cons.prems(2,3) have i1: "I s1" by auto
  show ?case
  proof (cases r1)
    case None
    with b Cons.prems(1) have "for_each body xs s1 = (r, s')" by simp
    moreover have "\<And>y u r u'. y \<in> set xs \<Longrightarrow> I u \<Longrightarrow> body y u = (r, u') \<Longrightarrow> I u'"
      using Cons.prems(3) by (meson list.set_intros(2))
    ultimately show ?thesis using Cons.IH i1 by blast
  next
    case (Some e)
    with b Cons.prems(1) have "s' = s1" by simp
    with i1 show ?thesis by simp
  qed
qed

lemma for_each_skip:
  assumes skip: "\<And>u. Q u \<Longrightarrow> body x u = (None, u)"
    and pres: "\<And>y u r u'. y \<in> set pre \<Longrightarrow> Q u \<Longrightarrow> body y u = (r, u') \<Longrightarrow> Q u'"
    and "Q s"
  shows "for_each body (pre @ x # post) s = for_each body (pre @ post) s"
  using pres \<open>Q s\<close>
proof (induction pre arbitrary: s)
  case Nil
  with skip show ?case by simp
next
  case (Cons y pre)
  obtain r1 s1 where b: "body y s = (r1, s1)" by (cases "body y s")
  with Cons.prems have q1: "Q s1" by auto
  have "\<And>z u r u'. z \<in> set pre \<Longrightarrow> Q u \<Longrightarrow> body z u = (r, u') \<Longrightarrow> Q u'"
    using Cons.prems(1) by (meson list.set_intros(2))
  then have "for_each body (pre @ x # post) s1 = for_each body (pre @ post) s1"
    using Cons.IH q1 by blast
  with b show ?case by (cases r1) auto
qed

text \<open>What each step leaves alone.\<close>

lemma edited_row_step_frame:
  assumes "edited_row_step json conn json_cols (idx, edited_row) s = (r, s')"
  shows "self_df s' = self_df s
       \<and> objs s' = objs s \<and> data s' = data s \<and> next_obj s' = next_obj s \<and> ui s' = ui s
       \<and> processed_added_rows s' = processed_added_rows s
       \<and> processed_deleted_rows s' = processed_deleted_rows s
       \<and> (\<forall>i. i \<noteq> idx \<longrightarrow> processed_edited_rows s' i = processed_edited_rows s i)"
  using assms
  by (auto simp: edited_row_step_def invoke_def self_df_def split: sum.splits prod.splits option.splits if_splits)

lemma added_row_step_frame:
  assumes "added_row_step json conn json_cols added_row s = (r, s')"
  shows "self_df s' = self_df s
       \<and> objs s' = objs s \<and> data s' = data s \<and> next_obj s' = next_obj s \<and> ui s' = ui s
       \<and> processed_edited_rows s' = processed_edited_rows s
       \<and> processed_deleted_rows s' = processed_deleted_rows s
       \<and> set (processed_added_rows s) \<subseteq> set (processed_added_rows s')"
  using assms
  by (auto simp: added_row_step_def invoke_def self_df_def split: sum.splits prod.splits option.splits if_splits)

lemma deleted_row_step_frame:
  assumes "deleted_row_step conn idx s = (r, s')"
  shows "self_df s' = self_df s
       \<and> objs s' = objs s \<and> data s' = data s \<and> next_obj s' = next_obj s \<and> ui s' = ui s
       \<and> processed_edited_rows s' = processed_edited_rows s
       \<and> processed_added_rows s' = processed_added_rows s
       \<and> set (processed_deleted_rows s) \<subseteq> set (processed_deleted_rows s')"
  using assms
  by (auto simp: deleted_row_step_def invoke_def self_df_def split: sum.splits prod.splits option.splits if_splits)

lemma for_each_None_split:
  assumes "for_each body (a @ x # b) s = (None, s')"
  shows "\<exists>sa sb. for_each body a s = (None, sa) \<and> body x sa = (None, sb)
                 \<and> for_each body b sb = (None, s')"
  using assms
  by (auto simp: for_each_append split: prod.splits option.splits)


lemma edited_loop_frame:
  assumes "for_each (edited_row_step json conn json_cols) es s = (r, s')"
  shows "self_df s' = self_df s
       \<and> processed_added_rows s' = processed_added_rows s
       \<and> processed_deleted_rows s' = processed_deleted_rows s"
proof -
  let ?I = "\<lambda>u. self_df u = self_df s
              \<and> processed_added_rows u = processed_added_rows s
              \<and> processed_deleted_rows u = processed_deleted_rows s"
  have "?I s'"
  proof (rule for_each_invariant [OF assms, where I = ?I])
    show "?I s" by simp
  next
    fix x u r u'
    assume "?I u" and st: "edited_row_step json conn json_cols x u = (r, u')"
    moreover obtain idx row where "x = (idx, row)" by (cases x)
    ultimately show "?I u'"
      using edited_row_step_frame [of json conn json_cols idx row u r u']
      by simp
  qed
  then show ?thesis .
qed

lemma added_loop_frame:
  assumes "for_each (added_row_step json conn json_cols) rs s = (r, s')"
  shows "self_df s' = self_df s
       \<and> processed_edited_rows s' = processed_edited_rows s
       \<and> processed_deleted_rows s' = processed_deleted_rows s
       \<and> set (processed_added_rows s) \<subseteq> set (processed_added_rows s')"
proof -
  let ?I = "\<lambda>u. self_df u = self_df s
              \<and> processed_edited_rows u = processed_edited_rows s
              \<and> processed_deleted_rows u = processed_deleted_rows s
              \<and> set (processed_added_rows s) \<subseteq> set (processed_added_rows u)"
  have "?I s'"
  proof (rule for_each_invariant [OF assms, where I = ?I])
    show "?I s" by simp
  next
    fix x u r u'
    assume "?I u" and st: "added_row_step json conn json_cols x u = (r, u')"
    then show "?I u'"
      using added_row_step_frame [OF st] by auto
  qed
  then show ?thesis .
qed

lemma deleted_loop_frame:
  assumes "for_each (deleted_row_step conn) ds s = (r, s')"
  shows "self_df s' = self_df s
       \<and> processed_edited_rows s' = processed_edited_rows s
       \<and> processed_added_rows s' = processed_added_rows s
       \<and> set (processed_deleted_rows s) \<subseteq> set (processed_deleted_rows s')"
proof -
  let ?I = "\<lambda>u. self_df u = self_df s
              \<and> processed_edited_rows u = processed_edited_rows s
              \<and> processed_added_rows u = processed_added_rows s
              \<and> set (processed_deleted_rows s) \<subseteq> set (processed_deleted_rows u)"
  have "?I s'"
  proof (rule for_each_invariant [OF assms, where I = ?I])
    show "?I s" by simp
  next
    fix x u r u'
    assume "?I u" and st: "deleted_row_step conn x u = (r, u')"
    then show "?I u'"
      using deleted_row_step_frame [OF st] by auto
  qed
  then show ?thesis .
qed

section \<open>What the codec returns\<close>

lemma deserializer_None: "deserializer json PNone = Inr PNone"
  by (simp add: deserializer_def)

lemma deserializer_text: "s \<noteq> PNone \<Longrightarrow> deserializer json s = loads json s"
  by (simp add: deserializer_def)

lemma json_error_message_inj: "json_error_message c = json_error_message c' \<Longrightarrow> c = c'"
  by (simp add: json_error_message_def)

lemma deserialize_mapping_append:
  "deserialize_json_cols_mapping json m (xs @ ys) =
     (case deserialize_json_cols_mapping json m xs of
        Inl e \<Rightarrow> Inl e
      | Inr m1 \<Rightarrow> deserialize_json_cols_mapping json m1 ys)"
  by (induction xs arbitrary: m) (auto split: option.splits sum.splits)

lemma deserialize_mapping_result:
  assumes "deserialize_json_cols_mapping json m cols = Inr m'" and "distinct cols"
  shows "map fst m' = map fst m
       \<and> (\<forall>c. if c \<in> set cols
               then rel_option (\<lambda>s v. deserializer json s = Inr v) (map_of m c) (map_of m' c)
               else map_of m' c = map_of m c)"
  using assms
proof (induction cols arbitrary: m)
  case Nil
  then show ?case by simp
next
  case (Cons c cs)
  show ?case
  proof (cases "map_of m c")
    case None
    with Cons.prems have r: "deserialize_json_cols_mapping json m cs = Inr m'" by simp
    from Cons.IH [OF r] Cons.prems(2) None show ?thesis by auto
  next
    case (Some s)
    with Cons.prems obtain v where v: "deserializer json s = Inr v"
      and r: "deserialize_json_cols_mapping json (AList.update c v m) cs = Inr m'"
      by (auto split: sum.splits)
    from Some have "c \<in> fst ` set m" by (force dest: map_of_SomeD)
    then have keys: "map fst (AList.update c v m) = map fst m"
      by (simp add: update_keys)
    from Cons.prems(2) have dcs: "distinct cs" and ccs: "c \<notin> set cs" by simp_all
    note ih = Cons.IH [OF r dcs]
    have px: "if x \<in> set (c # cs)
          then rel_option (\<lambda>s v. deserializer json s = Inr v) (map_of m x) (map_of m' x)
          else map_of m' x = map_of m x" for x
    proof (cases "x = c")
      case True
      with ih ccs have "map_of m' x = map_of (AList.update c v m) c" by auto
      with True Some v show ?thesis by (simp add: update_conv')
    next
      case False
      from ih have "if x \<in> set cs
          then rel_option (\<lambda>s v. deserializer json s = Inr v)
                 (map_of (AList.update c v m) x) (map_of m' x)
          else map_of m' x = map_of (AList.update c v m) x" by blast
      moreover from False have "map_of (AList.update c v m) x = map_of m x"
        by (simp add: update_conv')
      ultimately show ?thesis using False by (auto split: if_splits)
    qed
    from ih have "map fst m' = map fst (AList.update c v m)" by blast
    with keys have "map fst m' = map fst m" by simp
    with px show ?thesis by blast
  qed
qed

lemma deserialize_mapping_fails:
  assumes cols: "json_cols = pre @ c # post" and dist: "distinct json_cols"
    and pre: "\<forall>x\<in>set pre. \<forall>s. map_of m x = Some s \<longrightarrow> (\<exists>v. deserializer json s = Inr v)"
    and cell: "map_of m c = Some s" and err: "deserializer json s = Inl e"
  shows "deserialize_json_cols_mapping json m json_cols = Inl (reraise c e)"
proof -
  from dist cols have dp: "distinct pre" and cp: "c \<notin> set pre" by auto
  have "\<exists>m1. deserialize_json_cols_mapping json m pre = Inr m1" using pre dp
  proof (induction pre arbitrary: m)
    case Nil
    then show ?case by simp
  next
    case (Cons x xs)
    show ?case
    proof (cases "map_of m x")
      case None
      with Cons show ?thesis by simp
    next
      case (Some t)
      with Cons.prems obtain v where v: "deserializer json t = Inr v" by auto
      have "\<forall>y\<in>set xs. \<forall>s. map_of (AList.update x v m) y = Some s
              \<longrightarrow> (\<exists>w. deserializer json s = Inr w)"
        using Cons.prems v by (auto simp: update_conv')
      moreover from Cons.prems have "distinct xs" by simp
      ultimately show ?thesis using Cons.IH Some v by simp
    qed
  qed
  then obtain m1 where m1: "deserialize_json_cols_mapping json m pre = Inr m1" by blast
  from deserialize_mapping_result [OF m1 dp] cp have "map_of m1 c = map_of m c" by auto
  with cell err m1 cols show ?thesis
    by (simp add: deserialize_mapping_append)
qed


lemma series_apply_InrD:
  "series_apply f vs = Inr ws \<Longrightarrow> list_all2 (\<lambda>v w. f v = Inr w) vs ws"
  by (induction vs arbitrary: ws) (auto split: sum.splits)

lemma series_apply_InrI:
  "list_all2 (\<lambda>v w. f v = Inr w) vs ws \<Longrightarrow> series_apply f vs = Inr ws"
  by (induction vs ws rule: list_all2_induct) auto

lemma series_apply_Inl:
  assumes "vs = as @ s # bs" and "\<forall>x\<in>set as. \<exists>v. f x = Inr v" and "f s = Inl e"
  shows "series_apply f vs = Inl e"
  using assms
proof (induction as arbitrary: vs)
  case Nil
  then show ?case by simp
next
  case (Cons a as)
  then obtain v where "f a = Inr v" by auto
  moreover from Cons have "series_apply f (as @ s # bs) = Inl e" by simp
  ultimately show ?case using Cons.prems(1) by simp
qed

lemma df_setitem_other:
  "c \<noteq> x \<Longrightarrow> map_of (df_columns (df_setitem df c ws)) x = map_of (df_columns df) x"
  by (simp add: df_setitem_def update_conv')

lemma df_setitem_same: "map_of (df_columns (df_setitem df c ws)) c = Some ws"
  by (simp add: df_setitem_def update_conv')

lemma df_setitem_keys:
  "map_of (df_columns df) c = Some vs \<Longrightarrow>
     map fst (df_columns (df_setitem df c ws)) = map fst (df_columns df)
     \<and> df_index (df_setitem df c ws) = df_index df"
  by (force simp: df_setitem_def update_keys dest: map_of_SomeD)

lemma alist_eqI:
  assumes "distinct (map fst xs)" and "map fst xs = map fst ys"
    and "\<forall>k. map_of xs k = map_of ys k"
  shows "xs = ys"
  using assms
proof (induction xs arbitrary: ys)
  case Nil
  then show ?case by simp
next
  case (Cons x xs)
  obtain k v where x: "x = (k, v)" by (cases x)
  from Cons.prems(2) x obtain w ys' where ys: "ys = (k, w) # ys'"
    by (cases ys) auto
  from Cons.prems(3) x ys have vw: "v = w"
    by (metis map_of_Cons_code(2) option.inject)
  from Cons.prems(1) x have kx: "k \<notin> fst ` set xs" and dx: "distinct (map fst xs)" by auto
  from Cons.prems(2) x ys have keys: "map fst xs = map fst ys'" by simp
  with kx have ky: "k \<notin> fst ` set ys'" by (metis set_map)
  have "map_of xs j = map_of ys' j" for j
  proof (cases "j = k")
    case True
    from kx have "map_of xs k = None" by (simp add: map_of_eq_None_iff)
    moreover from ky have "map_of ys' k = None" by (simp add: map_of_eq_None_iff)
    ultimately show ?thesis using True by simp
  next
    case False
    with Cons.prems(3) [rule_format, of j] x ys show ?thesis by simp
  qed
  with Cons.IH [OF dx keys] have "xs = ys'" by blast
  with x ys vw show ?case by simp
qed


lemma ex_list_all2:
  "\<forall>v\<in>set vs. \<exists>w. P v w \<Longrightarrow> \<exists>ws. list_all2 P vs ws"
proof (induction vs)
  case Nil
  then show ?case by simp
next
  case (Cons v vs)
  then obtain w ws where "P v w" and "list_all2 P vs ws" by auto
  then have "list_all2 P (v # vs) (w # ws)" by simp
  then show ?case by blast
qed

lemma serialize_result:
  assumes "serialize_json_cols json df cols = Inr df'" and "distinct cols"
  shows "df_index df' = df_index df
       \<and> map fst (df_columns df') = map fst (df_columns df)
       \<and> (\<forall>c. if c \<in> set cols
               then (\<exists>vs ws. map_of (df_columns df) c = Some vs
                      \<and> map_of (df_columns df') c = Some ws
                      \<and> list_all2 (\<lambda>v w. encode_cell json v = Inr w) vs ws)
               else map_of (df_columns df') c = map_of (df_columns df) c)"
  using assms
proof (induction cols arbitrary: df)
  case Nil
  then show ?case by simp
next
  case (Cons c cs)
  from Cons.prems(1) obtain vs where vs: "map_of (df_columns df) c = Some vs"
    by (cases "map_of (df_columns df) c") (simp_all add: df_getitem_def)
  with Cons.prems(1) obtain ws where ws: "series_apply (encode_cell json) vs = Inr ws"
    and r: "serialize_json_cols json (df_setitem df c ws) cs = Inr df'"
    by (cases "series_apply (encode_cell json) vs") (simp_all add: df_getitem_def)
  from Cons.prems(2) have dcs: "distinct cs" and ccs: "c \<notin> set cs" by simp_all
  note ih = Cons.IH [OF r dcs]
  note l2 = series_apply_InrD [OF ws]
  have px: "if x \<in> set (c # cs)
        then (\<exists>vs ws. map_of (df_columns df) x = Some vs
               \<and> map_of (df_columns df') x = Some ws
               \<and> list_all2 (\<lambda>v w. encode_cell json v = Inr w) vs ws)
        else map_of (df_columns df') x = map_of (df_columns df) x" for x
  proof (cases "x = c")
    case True
    with ih ccs have "map_of (df_columns df') x = map_of (df_columns (df_setitem df c ws)) c"
      by auto
    with True vs l2 show ?thesis by (auto simp: df_setitem_same)
  next
    case False
    from ih have "if x \<in> set cs
        then (\<exists>vs ws'. map_of (df_columns (df_setitem df c ws)) x = Some vs
               \<and> map_of (df_columns df') x = Some ws'
               \<and> list_all2 (\<lambda>v w. encode_cell json v = Inr w) vs ws')
        else map_of (df_columns df') x = map_of (df_columns (df_setitem df c ws)) x"
      by blast
    moreover from False
    have "map_of (df_columns (df_setitem df c ws)) x = map_of (df_columns df) x"
      by (simp add: df_setitem_other)
    ultimately show ?thesis using False by (auto split: if_splits)
  qed
  from ih df_setitem_keys [OF vs, of ws]
  have "df_index df' = df_index df" and "map fst (df_columns df') = map fst (df_columns df)"
    by simp_all
  with px show ?case by blast
qed

lemma serialize_succeeds:
  assumes "distinct cols"
    and "\<forall>c\<in>set cols. \<exists>vs. map_of (df_columns df) c = Some vs
           \<and> (\<forall>v\<in>set vs. \<exists>w. encode_cell json v = Inr w)"
  shows "\<exists>df'. serialize_json_cols json df cols = Inr df'"
  using assms
proof (induction cols arbitrary: df)
  case Nil
  then show ?case by simp
next
  case (Cons c cs)
  from Cons.prems(2) obtain vs where vs: "map_of (df_columns df) c = Some vs"
    and ok: "\<forall>v\<in>set vs. \<exists>w. encode_cell json v = Inr w"
    by auto
  from ex_list_all2 [OF ok] obtain ws where "list_all2 (\<lambda>v w. encode_cell json v = Inr w) vs ws"
    by blast
  then have ws: "series_apply (encode_cell json) vs = Inr ws" by (rule series_apply_InrI)
  from Cons.prems(1) have dcs: "distinct cs" and ccs: "c \<notin> set cs" by simp_all
  have "\<forall>x\<in>set cs. \<exists>us. map_of (df_columns (df_setitem df c ws)) x = Some us
           \<and> (\<forall>v\<in>set us. \<exists>w. encode_cell json v = Inr w)"
  proof
    fix x assume x: "x \<in> set cs"
    with ccs have "c \<noteq> x" by auto
    then have "map_of (df_columns (df_setitem df c ws)) x = map_of (df_columns df) x"
      by (rule df_setitem_other)
    with Cons.prems(2) x show "\<exists>us. map_of (df_columns (df_setitem df c ws)) x = Some us
           \<and> (\<forall>v\<in>set us. \<exists>w. encode_cell json v = Inr w)"
      by simp
  qed
  from Cons.IH [OF dcs this] vs ws show ?case
    by (simp add: df_getitem_def)
qed

lemma deserialize_df_result:
  assumes "deserialize_json_cols_df json df cols = Inr df'" and "distinct cols"
  shows "df_index df' = df_index df
       \<and> map fst (df_columns df') = map fst (df_columns df)
       \<and> (\<forall>c. if c \<in> set cols
               then (\<exists>vs ws. map_of (df_columns df) c = Some vs
                      \<and> map_of (df_columns df') c = Some ws
                      \<and> list_all2 (\<lambda>v w. deserializer json v = Inr w) vs ws)
               else map_of (df_columns df') c = map_of (df_columns df) c)"
  using assms
proof (induction cols arbitrary: df)
  case Nil
  then show ?case by simp
next
  case (Cons c cs)
  from Cons.prems(1) obtain vs where vs: "map_of (df_columns df) c = Some vs"
    by (cases "map_of (df_columns df) c") (simp_all add: df_getitem_def)
  with Cons.prems(1) obtain ws where ws: "series_apply (deserializer json) vs = Inr ws"
    and r: "deserialize_json_cols_df json (df_setitem df c ws) cs = Inr df'"
    by (cases "series_apply (deserializer json) vs") (simp_all add: df_getitem_def)
  from Cons.prems(2) have dcs: "distinct cs" and ccs: "c \<notin> set cs" by simp_all
  note ih = Cons.IH [OF r dcs]
  note l2 = series_apply_InrD [OF ws]
  have px: "if x \<in> set (c # cs)
        then (\<exists>vs ws. map_of (df_columns df) x = Some vs
               \<and> map_of (df_columns df') x = Some ws
               \<and> list_all2 (\<lambda>v w. deserializer json v = Inr w) vs ws)
        else map_of (df_columns df') x = map_of (df_columns df) x" for x
  proof (cases "x = c")
    case True
    with ih ccs have "map_of (df_columns df') x = map_of (df_columns (df_setitem df c ws)) c"
      by auto
    with True vs l2 show ?thesis by (auto simp: df_setitem_same)
  next
    case False
    from ih have "if x \<in> set cs
        then (\<exists>vs ws'. map_of (df_columns (df_setitem df c ws)) x = Some vs
               \<and> map_of (df_columns df') x = Some ws'
               \<and> list_all2 (\<lambda>v w. deserializer json v = Inr w) vs ws')
        else map_of (df_columns df') x = map_of (df_columns (df_setitem df c ws)) x"
      by blast
    moreover from False
    have "map_of (df_columns (df_setitem df c ws)) x = map_of (df_columns df) x"
      by (simp add: df_setitem_other)
    ultimately show ?thesis using False by (auto split: if_splits)
  qed
  from ih df_setitem_keys [OF vs, of ws]
  have "df_index df' = df_index df" and "map fst (df_columns df') = map fst (df_columns df)"
    by simp_all
  with px show ?case by blast
qed

lemma deserialize_df_succeeds:
  assumes "distinct cols"
    and "\<forall>c\<in>set cols. \<exists>vs. map_of (df_columns df) c = Some vs
           \<and> (\<forall>v\<in>set vs. \<exists>w. deserializer json v = Inr w)"
  shows "\<exists>df'. deserialize_json_cols_df json df cols = Inr df'"
  using assms
proof (induction cols arbitrary: df)
  case Nil
  then show ?case by simp
next
  case (Cons c cs)
  from Cons.prems(2) obtain vs where vs: "map_of (df_columns df) c = Some vs"
    and ok: "\<forall>v\<in>set vs. \<exists>w. deserializer json v = Inr w"
    by auto
  from ex_list_all2 [OF ok] obtain ws where "list_all2 (\<lambda>v w. deserializer json v = Inr w) vs ws"
    by blast
  then have ws: "series_apply (deserializer json) vs = Inr ws" by (rule series_apply_InrI)
  from Cons.prems(1) have dcs: "distinct cs" and ccs: "c \<notin> set cs" by simp_all
  have "\<forall>x\<in>set cs. \<exists>us. map_of (df_columns (df_setitem df c ws)) x = Some us
           \<and> (\<forall>v\<in>set us. \<exists>w. deserializer json v = Inr w)"
  proof
    fix x assume x: "x \<in> set cs"
    with ccs have "c \<noteq> x" by auto
    then have "map_of (df_columns (df_setitem df c ws)) x = map_of (df_columns df) x"
      by (rule df_setitem_other)
    with Cons.prems(2) x show "\<exists>us. map_of (df_columns (df_setitem df c ws)) x = Some us
           \<and> (\<forall>v\<in>set us. \<exists>w. deserializer json v = Inr w)"
      by simp
  qed
  from Cons.IH [OF dcs this] vs ws show ?case
    by (simp add: df_getitem_def)
qed


lemma deserialize_df_append:
  "deserialize_json_cols_df json df (xs @ ys) =
     (case deserialize_json_cols_df json df xs of
        Inl e \<Rightarrow> Inl e
      | Inr df1 \<Rightarrow> deserialize_json_cols_df json df1 ys)"
  by (induction xs arbitrary: df) (auto split: sum.splits)

lemma deserialize_df_fails:
  assumes cols: "json_cols = pre @ c # post" and dist: "distinct json_cols"
    and pre: "\<forall>x\<in>set pre. \<exists>vs. map_of (df_columns df) x = Some vs
                \<and> (\<forall>v\<in>set vs. \<exists>w. deserializer json v = Inr w)"
    and col: "map_of (df_columns df) c = Some vs"
    and err: "series_apply (deserializer json) vs = Inl e"
  shows "deserialize_json_cols_df json df json_cols = Inl (reraise c e)"
proof -
  from dist cols have dp: "distinct pre" and cp: "c \<notin> set pre" by auto
  from deserialize_df_succeeds [OF dp pre] obtain df1 where
    df1: "deserialize_json_cols_df json df pre = Inr df1" by blast
  from deserialize_df_result [OF df1 dp] cp
  have "map_of (df_columns df1) c = map_of (df_columns df) c" by auto
  with col err df1 cols show ?thesis
    by (simp add: deserialize_df_append df_getitem_def)
qed

section \<open>Detection of the JSON columns\<close>

lemma collect_labels_eq:
  "collect_labels r res = res @ map fst (filter (\<lambda>(label, v). is_nested v) r)"
  by (induction r res rule: collect_labels.induct) auto

lemma collect_labels_set:
  "label \<in> set (collect_labels r []) \<longleftrightarrow> (\<exists>v. (label, v) \<in> set r \<and> is_nested v)"
  by (force simp: collect_labels_eq)

text \<open>
  C9. On a table with at least one row the detection succeeds; it reads the first row,
  whose value for a column is the head of that column, and a column is in the result
  exactly when that value is a mapping or a sequence and is not a string, bytes or a
  byte array. Any other table with the same first row gives the same columns.
\<close>

theorem detect_json_cols_first_row:
  assumes "df_index df \<noteq> []"
  shows "\<exists>r cols. first_row df = Inr r
           \<and> r = map (\<lambda>(label, vs). (label, hd vs)) (df_columns df)
           \<and> get_json_serializable_cols df = Inr cols
           \<and> (\<forall>label. label \<in> set cols \<longleftrightarrow>
                 (\<exists>v. (label, v) \<in> set r
                    \<and> (isinstance_Mapping v \<or> isinstance_Sequence v)
                    \<and> \<not> isinstance_str_bytes_bytearray v))
           \<and> (\<forall>df'. first_row df' = Inr r \<longrightarrow> get_json_serializable_cols df' = Inr cols)"
proof -
  let ?r = "map (\<lambda>(label, vs). (label, hd vs)) (df_columns df)"
  have fr: "first_row df = Inr ?r"
    using assms by (simp add: first_row_def)
  have g: "get_json_serializable_cols df = Inr (collect_labels ?r [])"
    by (simp add: get_json_serializable_cols_def fr)
  have m: "\<forall>label. label \<in> set (collect_labels ?r []) \<longleftrightarrow>
             (\<exists>v. (label, v) \<in> set ?r
                \<and> (isinstance_Mapping v \<or> isinstance_Sequence v)
                \<and> \<not> isinstance_str_bytes_bytearray v)"
    unfolding collect_labels_set is_nested_def by simp
  have o: "\<forall>df'. first_row df' = Inr ?r \<longrightarrow>
             get_json_serializable_cols df' = Inr (collect_labels ?r [])"
    by (simp add: get_json_serializable_cols_def)
  from fr g m o show ?thesis by blast
qed

theorem detect_json_cols_first_row_witness:
  "df_index tags_table \<noteq> []
   \<and> (\<exists>r cols. first_row tags_table = Inr r
           \<and> r = map (\<lambda>(label, vs). (label, hd vs)) (df_columns tags_table)
           \<and> get_json_serializable_cols tags_table = Inr cols
           \<and> (\<forall>label. label \<in> set cols \<longleftrightarrow>
                 (\<exists>v. (label, v) \<in> set r
                    \<and> (isinstance_Mapping v \<or> isinstance_Sequence v)
                    \<and> \<not> isinstance_str_bytes_bytearray v))
           \<and> (\<forall>df'. first_row df' = Inr r \<longrightarrow> get_json_serializable_cols df' = Inr cols))
   \<and> get_json_serializable_cols tags_table = Inr [''tags'']"
proof -
  have h: "df_index tags_table \<noteq> []"
    by (simp add: tags_table_def)
  have c: "get_json_serializable_cols tags_table = Inr [''tags'']"
    by (simp add: get_json_serializable_cols_def first_row_def tags_table_def is_nested_def)
  from h detect_json_cols_first_row [OF h] c show ?thesis by blast
qed

text \<open>
  C10. On a table without rows the detection raises \<open>StopIteration\<close>, and \<open>edit\<close> on a
  session whose snapshot has no rows ends with that exception and leaves the session
  as it was: no grid is shown and no call reaches the store.
\<close>

theorem empty_table_fails:
  assumes "df_index (self_df s) = []"
  shows "get_json_serializable_cols (self_df s) = Inl StopIteration
       \<and> edit json conn widget s = (Raised StopIteration, s)"
  using assms by (simp add: get_json_serializable_cols_def first_row_def edit_def)

theorem empty_table_fails_witness:
  "df_index (self_df (new_session empty_table (0::nat))) = []
   \<and> get_json_serializable_cols (self_df (new_session empty_table (0::nat))) = Inl StopIteration
   \<and> edit py_json ok_store idle_widget (new_session empty_table (0::nat))
       = (Raised StopIteration, new_session empty_table (0::nat))"
proof -
  have h: "df_index (self_df (new_session empty_table (0::nat))) = []"
    by (simp add: self_df_def new_session_def empty_table_def)
  from h empty_table_fails [OF h, of py_json ok_store idle_widget] show ?thesis by blast
qed

section \<open>The examples evaluated\<close>

lemma first_key_of_tags_table:
  "index_at (self_df (new_session tags_table st)) 0 = Inr (PStr ''a'')"
  by (simp add: index_at_def self_df_def new_session_def tags_table_def)

lemma tags_table_json_cols: "get_json_serializable_cols tags_table = Inr [''tags'']"
  by (simp add: get_json_serializable_cols_def first_row_def tags_table_def is_nested_def)

lemma tags_table_serialized:
  "serialize_json_cols py_json tags_table [''tags''] = Inr tags_display"
  by code_simp

lemma tags_display_deserialized:
  "deserialize_json_cols_df py_json tags_display [''tags''] = Inr tags_table"
  by code_simp

lemma added_b_repr: "dumps_sorted py_json (PDict [(''n'', PInt 1)]) = Inr ''{\"n\": 1}''"
  by code_simp

lemma edited_tags_decoded:
  "deserialize_json_cols_mapping py_json edited_tags [''tags''] = Inr decoded_tags"
  by code_simp

section \<open>Deleted rows\<close>

lemma index_at_position:
  "index_at df idx =
     (if 0 \<le> idx \<and> idx < int (length (df_index df)) then Inr (df_index df ! nat idx)
      else if - int (length (df_index df)) \<le> idx \<and> idx < 0
        then Inr (df_index df ! nat (int (length (df_index df)) + idx))
      else Inl IndexError)"
  by (auto simp: index_at_def Let_def)

lemma process_edits_loops:
  assumes "for_each (edited_row_step json conn json_cols) (edited_rows info) s = (None, sa)"
    and "for_each (added_row_step json conn json_cols) (added_rows info) sa = (None, sb)"
  shows "self_df sb = self_df s"
    and "processed_deleted_rows sb = processed_deleted_rows s"
    and "process_edits json conn info json_cols s
           = for_each (deleted_row_step conn) (deleted_rows info) sb"
  using edited_loop_frame [OF assms(1)] added_loop_frame [OF assms(2)] assms
  by (simp_all add: process_edits_def)

lemma py_in_mono: "py_in k xs \<Longrightarrow> set xs \<subseteq> set ys \<Longrightarrow> py_in k ys"
  by (auto simp: py_in_def list_ex_iff)

lemma deleted_row_step_skip:
  "index_at (self_df u) idx = Inr key \<Longrightarrow> py_in key (processed_deleted_rows u) \<Longrightarrow>
     deleted_row_step conn idx u = (None, u)"
  by (simp add: deleted_row_step_def)

lemma deleted_row_step_records:
  assumes "deleted_row_step conn idx s = (None, s')" and "index_at (self_df s) idx = Inr key"
    and "distinct_keys key"
  shows "py_in key (processed_deleted_rows s')"
  using assms py_eq_refl [of key]
  by (auto simp: deleted_row_step_def invoke_def py_in_def
           split: prod.splits option.splits if_splits)

lemma deleted_rerun_skipped:
  fixes t :: "'a session"
  assumes q: "py_in key (processed_deleted_rows t)" and key: "index_at (self_df t) idx = Inr key"
    and ds: "deleted_rows info = pre @ idx # post"
  shows "process_edits json conn info json_cols t
       = process_edits json conn (info\<lparr>deleted_rows := pre @ post\<rparr>) json_cols t"
proof -
  let ?Q = "\<lambda>u. self_df u = self_df t \<and> py_in key (processed_deleted_rows u)"
  have skip: "for_each (deleted_row_step conn) (pre @ idx # post) u
            = for_each (deleted_row_step conn) (pre @ post) u" if "?Q u" for u
  proof (rule for_each_skip [where Q = ?Q])
    show "?Q u" by (rule that)
  next
    fix v :: "'a session" assume "?Q v"
    with key show "deleted_row_step conn idx v = (None, v)"
      by (simp add: deleted_row_step_skip)
  next
    fix y r and v v' :: "'a session"
    assume "?Q v" and st: "deleted_row_step conn y v = (r, v')"
    then show "?Q v'"
      using deleted_row_step_frame [OF st] by (auto intro: py_in_mono)
  qed
  show ?thesis
  proof (cases "for_each (edited_row_step json conn json_cols) (edited_rows info) t")
    case (Pair r1 s1)
    note e = edited_loop_frame [OF Pair]
    show ?thesis
    proof (cases "for_each (added_row_step json conn json_cols) (added_rows info) s1")
      case (Pair r2 s2)
      note a = added_loop_frame [OF Pair]
      from e a q have "?Q s2" by simp
      from skip [OF this] show ?thesis
        using \<open>for_each (edited_row_step json conn json_cols) (edited_rows info) t = (r1, s1)\<close> Pair ds
        by (cases r1; cases r2) (simp_all add: process_edits_def)
    qed
  qed
qed

lemma deleted_entry_recorded:
  assumes e: "for_each (edited_row_step json conn json_cols) (edited_rows info) s = (None, sa)"
    and a: "for_each (added_row_step json conn json_cols) (added_rows info) sa = (None, sb)"
    and ds: "deleted_rows info = before @ idx # rest"
    and past: "for_each (deleted_row_step conn) (before @ [idx]) sb = (None, sd)"
    and run: "process_edits json conn info json_cols s = (r, s1)"
    and key: "index_at (self_df s) idx = Inr key" and dk: "distinct_keys key"
  shows "py_in key (processed_deleted_rows s1)"
proof -
  from for_each_None_split [OF past] obtain sc where
    b: "for_each (deleted_row_step conn) before sb = (None, sc)" and
    x: "deleted_row_step conn idx sc = (None, sd)"
    by (elim exE conjE) simp
  from process_edits_loops(1) [OF e a] deleted_loop_frame [OF b] key
  have "index_at (self_df sc) idx = Inr key" by simp
  from deleted_row_step_records [OF x this dk] have rec: "py_in key (processed_deleted_rows sd)" .
  have "for_each (deleted_row_step conn) (deleted_rows info) sb
      = for_each (deleted_row_step conn) rest sd"
    using past ds for_each_append [of "deleted_row_step conn" "before @ [idx]" rest sb]
    by simp
  with process_edits_loops(3) [OF e a] run
  have "for_each (deleted_row_step conn) rest sd = (r, s1)" by simp
  from deleted_loop_frame [OF this]
  have "set (processed_deleted_rows sd) \<subseteq> set (processed_deleted_rows s1)" by blast
  with rec show ?thesis by (rule py_in_mono)
qed

text \<open>
  C7. A position in the deleted rows is resolved through the row order of the snapshot:
  position \<open>i\<close> from the start, or from the end when negative, is the key the index holds
  there, and a position outside the table ends the step with \<open>IndexError\<close>. When a key
  equal (Python's \<open>==\<close>) to the resolved one is in the record of deleted keys the step
  does nothing: no call, the session unchanged. Otherwise the step calls \<open>del_item\<close> once
  with the key; when the call returns the key is appended to the record, when it raises
  the record is left as it was. A render runs these steps over the deleted rows, in order,
  after the loops of the edited and the added rows. Once the step of a position has
  returned in a render, every later render on the same snapshot whose record still holds
  what that render left treats each position of that key as if the diff did not report
  it: no second \<open>del_item\<close> for the key.
\<close>

theorem delete_applied_once:
  "index_at (self_df s) idx =
     (if 0 \<le> idx \<and> idx < int (length (df_index (self_df s)))
        then Inr (df_index (self_df s) ! nat idx)
      else if - int (length (df_index (self_df s))) \<le> idx \<and> idx < 0
        then Inr (df_index (self_df s) ! nat (int (length (df_index (self_df s))) + idx))
      else Inl IndexError)
   \<and> deleted_row_step conn idx s =
       (case index_at (self_df s) idx of
          Inl e \<Rightarrow> (Some e, s)
        | Inr k \<Rightarrow>
            if py_in k (processed_deleted_rows s) then (None, s)
            else (case conn (DelItem k) (store s) of
                    (None, st') \<Rightarrow>
                      (None, s\<lparr>store := st', calls := calls s @ [DelItem k],
                               processed_deleted_rows := processed_deleted_rows s @ [k]\<rparr>)
                  | (Some e, st') \<Rightarrow>
                      (Some e, s\<lparr>store := st', calls := calls s @ [DelItem k]\<rparr>)))
   \<and> (py_in k ks \<longleftrightarrow> (\<exists>k'\<in>set ks. py_eq k k'))
   \<and> (for_each (edited_row_step json conn json_cols) (edited_rows info) s = (None, sa)
      \<and> for_each (added_row_step json conn json_cols) (added_rows info) sa = (None, sb)
      \<longrightarrow> self_df sb = self_df s
        \<and> processed_deleted_rows sb = processed_deleted_rows s
        \<and> process_edits json conn info json_cols s
            = for_each (deleted_row_step conn) (deleted_rows info) sb)
   \<and> for_each (deleted_row_step conn) (idx # others) s =
       (case deleted_row_step conn idx s of
          (Some e, s') \<Rightarrow> (Some e, s')
        | (None, s') \<Rightarrow> for_each (deleted_row_step conn) others s')
   \<and> (for_each (edited_row_step json conn json_cols) (edited_rows info) s = (None, sa)
      \<and> for_each (added_row_step json conn json_cols) (added_rows info) sa = (None, sb)
      \<and> deleted_rows info = before @ idx # rest
      \<and> for_each (deleted_row_step conn) (before @ [idx]) sb = (None, sd)
      \<and> process_edits json conn info json_cols s = (r, s1)
      \<and> index_at (self_df s) idx = Inr key \<and> distinct_keys key
      \<and> self_df t = self_df s
      \<and> set (processed_deleted_rows s1) \<subseteq> set (processed_deleted_rows t)
      \<and> index_at (self_df s) idx' = Inr key
      \<and> deleted_rows info' = pre @ idx' # post
      \<longrightarrow> process_edits json' conn' info' json_cols' t
            = process_edits json' conn' (info'\<lparr>deleted_rows := pre @ post\<rparr>) json_cols' t)"
proof (intro conjI impI)
  show "index_at (self_df s) idx =
     (if 0 \<le> idx \<and> idx < int (length (df_index (self_df s)))
        then Inr (df_index (self_df s) ! nat idx)
      else if - int (length (df_index (self_df s))) \<le> idx \<and> idx < 0
        then Inr (df_index (self_df s) ! nat (int (length (df_index (self_df s))) + idx))
      else Inl IndexError)"
    by (rule index_at_position)
next
  show "deleted_row_step conn idx s =
       (case index_at (self_df s) idx of
          Inl e \<Rightarrow> (Some e, s)
        | Inr k \<Rightarrow>
            if py_in k (processed_deleted_rows s) then (None, s)
            else (case conn (DelItem k) (store s) of
                    (None, st') \<Rightarrow>
                      (None, s\<lparr>store := st', calls := calls s @ [DelItem k],
                               processed_deleted_rows := processed_deleted_rows s @ [k]\<rparr>)
                  | (Some e, st') \<Rightarrow>
                      (Some e, s\<lparr>store := st', calls := calls s @ [DelItem k]\<rparr>)))"
    by (simp add: deleted_row_step_def invoke_def split: sum.splits prod.splits option.splits)
next
  show "py_in k ks \<longleftrightarrow> (\<exists>k'\<in>set ks. py_eq k k')"
    by (simp add: py_in_def list_ex_iff)
next
  assume h: "for_each (edited_row_step json conn json_cols) (edited_rows info) s = (None, sa)
      \<and> for_each (added_row_step json conn json_cols) (added_rows info) sa = (None, sb)"
  then have e: "for_each (edited_row_step json conn json_cols) (edited_rows info) s = (None, sa)"
    and a: "for_each (added_row_step json conn json_cols) (added_rows info) sa = (None, sb)"
    by blast+
  show "self_df sb = self_df s" by (rule process_edits_loops(1) [OF e a])
  show "processed_deleted_rows sb = processed_deleted_rows s"
    by (rule process_edits_loops(2) [OF e a])
  show "process_edits json conn info json_cols s
            = for_each (deleted_row_step conn) (deleted_rows info) sb"
    by (rule process_edits_loops(3) [OF e a])
next
  show "for_each (deleted_row_step conn) (idx # others) s =
       (case deleted_row_step conn idx s of
          (Some e, s') \<Rightarrow> (Some e, s')
        | (None, s') \<Rightarrow> for_each (deleted_row_step conn) others s')"
    by simp
next
  assume h: "for_each (edited_row_step json conn json_cols) (edited_rows info) s = (None, sa)
      \<and> for_each (added_row_step json conn json_cols) (added_rows info) sa = (None, sb)
      \<and> deleted_rows info = before @ idx # rest
      \<and> for_each (deleted_row_step conn) (before @ [idx]) sb = (None, sd)
      \<and> process_edits json conn info json_cols s = (r, s1)
      \<and> index_at (self_df s) idx = Inr key \<and> distinct_keys key
      \<and> self_df t = self_df s
      \<and> set (processed_deleted_rows s1) \<subseteq> set (processed_deleted_rows t)
      \<and> index_at (self_df s) idx' = Inr key
      \<and> deleted_rows info' = pre @ idx' # post"
  then have e: "for_each (edited_row_step json conn json_cols) (edited_rows info) s = (None, sa)"
    and a: "for_each (added_row_step json conn json_cols) (added_rows info) sa = (None, sb)"
    and ds: "deleted_rows info = before @ idx # rest"
    and past: "for_each (deleted_row_step conn) (before @ [idx]) sb = (None, sd)"
    and run: "process_edits json conn info json_cols s = (r, s1)"
    and key: "index_at (self_df s) idx = Inr key" and dk: "distinct_keys key"
    and sd: "self_df t = self_df s"
    and sub: "set (processed_deleted_rows s1) \<subseteq> set (processed_deleted_rows t)"
    and key': "index_at (self_df s) idx' = Inr key"
    and ds': "deleted_rows info' = pre @ idx' # post"
    by blast+
  from deleted_entry_recorded [OF e a ds past run key dk] sub
  have q: "py_in key (processed_deleted_rows t)" by (rule py_in_mono)
  from key' sd have k: "index_at (self_df t) idx' = Inr key" by simp
  show "process_edits json' conn' info' json_cols' t
          = process_edits json' conn' (info'\<lparr>deleted_rows := pre @ post\<rparr>) json_cols' t"
    by (rule deleted_rerun_skipped [OF q k ds'])
qed

theorem delete_applied_once_witness:
  "index_at (self_df (new_session two_rows (0::nat))) 1 = Inr (PStr ''b'')
   \<and> index_at (self_df (new_session two_rows (0::nat))) (- 1) = Inr (PStr ''b'')
   \<and> index_at (self_df (new_session two_rows (0::nat))) 0 = Inr (PStr ''a'')
   \<and> index_at (self_df (new_session two_rows (0::nat))) 2 = Inl IndexError
   \<and> process_edits py_json ok_store delete_second [''tags''] (new_session two_rows (0::nat))
       = (None, new_session two_rows (0::nat)
                  \<lparr>store := Suc 0, calls := [DelItem (PStr ''b'')],
                   processed_deleted_rows := [PStr ''b'']\<rparr>)
   \<and> process_edits py_json ok_store delete_last_twice [''tags'']
         (new_session two_rows (0::nat)
            \<lparr>store := Suc 0, calls := [DelItem (PStr ''b'')],
             processed_deleted_rows := [PStr ''b'']\<rparr>)
       = (None, new_session two_rows (0::nat)
                  \<lparr>store := Suc 0, calls := [DelItem (PStr ''b'')],
                   processed_deleted_rows := [PStr ''b'']\<rparr>)
   \<and> calls (snd (process_edits py_json ok_store delete_first [''tags'']
         (new_session two_rows (0::nat)
            \<lparr>store := Suc 0, calls := [DelItem (PStr ''b'')],
             processed_deleted_rows := [PStr ''b'']\<rparr>)))
       = [DelItem (PStr ''b''), DelItem (PStr ''a'')]"
proof -
  let ?s = "new_session two_rows (0::nat)"
  let ?s1 = "?s\<lparr>store := Suc 0, calls := [DelItem (PStr ''b'')],
                 processed_deleted_rows := [PStr ''b'']\<rparr>"
  let ?once = "delete_last_twice\<lparr>deleted_rows := [] @ [- 1]\<rparr>"
  note T = delete_applied_once [where s = ?s and idx = 1 and conn = ok_store
      and json = py_json and json_cols = "[''tags'']" and info = delete_second
      and sa = ?s and sb = ?s and before = "[]" and rest = "[]" and sd = ?s1
      and r = None and ?s1.0 = ?s1 and key = "PStr ''b''" and t = ?s1 and idx' = 1
      and info' = delete_last_twice and pre = "[]" and post = "[- 1]"
      and json' = py_json and conn' = ok_store and json_cols' = "[''tags'']"
      and others = "[]"]
  note T' = delete_applied_once [where s = ?s and idx = 1 and conn = ok_store
      and json = py_json and json_cols = "[''tags'']" and info = delete_second
      and sa = ?s and sb = ?s and before = "[]" and rest = "[]" and sd = ?s1
      and r = None and ?s1.0 = ?s1 and key = "PStr ''b''" and t = ?s1 and idx' = "- 1"
      and info' = ?once and pre = "[]" and post = "[]"
      and json' = py_json and conn' = ok_store and json_cols' = "[''tags'']"]
  have df: "self_df ?s = two_rows" and df1: "self_df ?s1 = self_df ?s"
    by (simp_all add: self_df_def new_session_def)
  have ix: "df_index two_rows = [PStr ''a'', PStr ''b'']"
    by (simp add: two_rows_def)
  from T have k1: "index_at (self_df ?s) 1 = Inr (PStr ''b'')"
    by (simp add: df ix)
  have k2: "index_at (self_df ?s) (- 1) = Inr (PStr ''b'')"
    and k0: "index_at (self_df ?s) 0 = Inr (PStr ''a'')"
    and k3: "index_at (self_df ?s) 2 = Inl IndexError"
    by (simp_all add: df ix index_at_def)
  have e: "for_each (edited_row_step py_json ok_store [''tags'']) (edited_rows delete_second) ?s
             = (None, ?s)"
    and a: "for_each (added_row_step py_json ok_store [''tags'']) (added_rows delete_second) ?s
             = (None, ?s)"
    and ds: "deleted_rows delete_second = [] @ 1 # []"
    by (simp_all add: delete_second_def)
  have n: "\<not> py_in (PStr ''b'') (processed_deleted_rows ?s)"
    by (simp add: py_in_def new_session_def)
  have c: "ok_store (DelItem (PStr ''b'')) (store ?s) = (None, Suc 0)"
    by (simp add: ok_store_def new_session_def)
  have u: "?s\<lparr>store := Suc 0, calls := calls ?s @ [DelItem (PStr ''b'')],
               processed_deleted_rows := processed_deleted_rows ?s @ [PStr ''b'']\<rparr> = ?s1"
    by (simp add: new_session_def)
  from T k1 n c u have st: "deleted_row_step ok_store 1 ?s = (None, ?s1)"
    by simp
  then have past: "for_each (deleted_row_step ok_store) ([] @ [1]) ?s = (None, ?s1)"
    by simp
  from T e a st have run: "process_edits py_json ok_store delete_second [''tags''] ?s = (None, ?s1)"
    by (simp add: delete_second_def)
  have dk: "distinct_keys (PStr ''b'')" by simp
  have sub: "set (processed_deleted_rows ?s1) \<subseteq> set (processed_deleted_rows ?s1)" by simp
  have ds1: "deleted_rows delete_last_twice = [] @ 1 # [- 1]"
    by (simp add: delete_last_twice_def)
  have ds2: "deleted_rows ?once = [] @ (- 1) # []" by simp
  from T e a ds past run k1 dk df1 sub ds1
  have r1: "process_edits py_json ok_store delete_last_twice [''tags''] ?s1
          = process_edits py_json ok_store ?once [''tags''] ?s1"
    by blast
  from T' e a ds past run k1 dk df1 sub k2 ds2
  have r2: "process_edits py_json ok_store ?once [''tags''] ?s1
          = process_edits py_json ok_store (?once\<lparr>deleted_rows := [] @ []\<rparr>) [''tags''] ?s1"
    by blast
  have r3: "process_edits py_json ok_store (?once\<lparr>deleted_rows := [] @ []\<rparr>) [''tags''] ?s1
          = (None, ?s1)"
    by (simp add: process_edits_def delete_last_twice_def)
  from r1 r2 r3
  have again: "process_edits py_json ok_store delete_last_twice [''tags''] ?s1 = (None, ?s1)"
    by simp
  have other: "calls (snd (process_edits py_json ok_store delete_first [''tags''] ?s1))
             = [DelItem (PStr ''b''), DelItem (PStr ''a'')]"
    by (simp add: process_edits_def delete_first_def deleted_row_step_def df1 k0 py_in_def
          invoke_def ok_store_def)
  from k1 k2 k0 k3 run again other show ?thesis by blast
qed

text \<open>
  When \<open>del_item\<close> raises, the key is not recorded, and the next render, given the same
  diff, calls \<open>del_item\<close> for the key again: two renders on the table of one row with a
  store that refuses every call.
\<close>

theorem delete_repeated_after_failure:
  "fst (edit py_json failing_store deleting_widget (new_session tags_table (0::nat)))
     = Raised (StoreError ''unavailable'')
   \<and> processed_deleted_rows
       (snd (edit py_json failing_store deleting_widget (new_session tags_table (0::nat)))) = []
   \<and> calls (snd (edit py_json failing_store deleting_widget
              (snd (edit py_json failing_store deleting_widget (new_session tags_table (0::nat))))))
     = [DelItem (PStr ''a''), DelItem (PStr ''a'')]"
  by code_simp

section \<open>Failing store calls\<close>

text \<open>
  C8. When the call on the store raises, the step of the edited rows, of the added rows
  and of the deleted rows each ends with that exception after this one call: the session
  differs from the one before only in the store and in the list of calls, so the three
  records of applied edits are as they were. The loop stops at that entry;
  \<open>process_edits\<close> ends with the exception of whichever of its three loops raised, and
  \<open>edit\<close> ends with the exception of \<open>process_edits\<close>, each with the session of that
  moment.
\<close>

theorem store_failure_propagates:
  "(index_at (self_df s) idx = Inr key
      \<and> deserialize_json_cols_mapping json edited_row json_cols = Inr edited_row'
      \<and> \<not> already_processed s idx edited_row'
      \<and> conn (ModifyItem key edited_row') (store s) = (Some e, st')
    \<longrightarrow> edited_row_step json conn json_cols (idx, edited_row) s
          = (Some e, s\<lparr>store := st', calls := calls s @ [ModifyItem key edited_row']\<rparr>))
   \<and> (deserialize_json_cols_mapping json added_row json_cols = Inr added_row'
      \<and> pop_index added_row' = Inr (keys, item)
      \<and> dumps_sorted json (PDict item) = Inr added_row_repr
      \<and> added_row_repr \<notin> set (processed_added_rows s)
      \<and> conn (PutItem keys item) (store s) = (Some e, st')
    \<longrightarrow> added_row_step json conn json_cols added_row s
          = (Some e, s\<lparr>store := st', calls := calls s @ [PutItem keys item]\<rparr>))
   \<and> (index_at (self_df s) idx = Inr key
      \<and> \<not> py_in key (processed_deleted_rows s)
      \<and> conn (DelItem key) (store s) = (Some e, st')
    \<longrightarrow> deleted_row_step conn idx s
          = (Some e, s\<lparr>store := st', calls := calls s @ [DelItem key]\<rparr>))
   \<and> processed_edited_rows (s\<lparr>store := st', calls := calls s @ [c]\<rparr>) = processed_edited_rows s
   \<and> processed_added_rows (s\<lparr>store := st', calls := calls s @ [c]\<rparr>) = processed_added_rows s
   \<and> processed_deleted_rows (s\<lparr>store := st', calls := calls s @ [c]\<rparr>) = processed_deleted_rows s
   \<and> (for_each body pre s0 = (None, s) \<and> body x s = (Some e, s')
    \<longrightarrow> for_each body (pre @ x # post) s0 = (Some e, s'))
   \<and> (for_each (edited_row_step json conn json_cols) (edited_rows info) v = (Some e, v')
    \<longrightarrow> process_edits json conn info json_cols v = (Some e, v'))
   \<and> (for_each (edited_row_step json conn json_cols) (edited_rows info) v = (None, va)
      \<and> for_each (added_row_step json conn json_cols) (added_rows info) va = (Some e, v')
    \<longrightarrow> process_edits json conn info json_cols v = (Some e, v'))
   \<and> (for_each (edited_row_step json conn json_cols) (edited_rows info) v = (None, va)
      \<and> for_each (added_row_step json conn json_cols) (added_rows info) va = (None, vb)
      \<and> for_each (deleted_row_step conn) (deleted_rows info) vb = (Some e, v')
    \<longrightarrow> process_edits json conn info json_cols v = (Some e, v'))
   \<and> (get_json_serializable_cols (self_df u) = Inr json_cols
      \<and> df_copy (data u) u = (a, u1)
      \<and> serialize_at json a json_cols u1 = (None, u2)
      \<and> widget (objs u2 a) = (edited_df, info)
      \<and> deserialize_json_cols_df json edited_df json_cols = Inr edited_df'
      \<and> process_edits json conn info json_cols (u2\<lparr>ui := ui u2 @ [Grid (objs u2 a)]\<rparr>)
          = (Some e, u4)
    \<longrightarrow> edit json conn widget u = (Raised e, u4))"
proof -
  have "edit json conn widget u = (Raised e, u4)"
    if "get_json_serializable_cols (self_df u) = Inr json_cols
      \<and> df_copy (data u) u = (a, u1)
      \<and> serialize_at json a json_cols u1 = (None, u2)
      \<and> widget (objs u2 a) = (edited_df, info)
      \<and> deserialize_json_cols_df json edited_df json_cols = Inr edited_df'
      \<and> process_edits json conn info json_cols (u2\<lparr>ui := ui u2 @ [Grid (objs u2 a)]\<rparr>)
          = (Some e, u4)"
    using that by (simp add: edit_def)
  moreover have "process_edits json conn info json_cols v = (Some e, v')"
    if "for_each (edited_row_step json conn json_cols) (edited_rows info) v = (Some e, v')"
    using that by (simp add: process_edits_def)
  moreover have "process_edits json conn info json_cols v = (Some e, v')"
    if "for_each (edited_row_step json conn json_cols) (edited_rows info) v = (None, va)
      \<and> for_each (added_row_step json conn json_cols) (added_rows info) va = (Some e, v')"
    using that by (simp add: process_edits_def)
  moreover have "process_edits json conn info json_cols v = (Some e, v')"
    if "for_each (edited_row_step json conn json_cols) (edited_rows info) v = (None, va)
      \<and> for_each (added_row_step json conn json_cols) (added_rows info) va = (None, vb)
      \<and> for_each (deleted_row_step conn) (deleted_rows info) vb = (Some e, v')"
    using that by (simp add: process_edits_def)
  ultimately show ?thesis
    by (auto simp: edited_row_step_def added_row_step_def deleted_row_step_def invoke_def
          for_each_append)
qed

theorem store_failure_propagates_witness:
  "edited_row_step py_json failing_store [''tags''] (0, edited_n) (new_session tags_table (0::nat))
     = (Some (StoreError ''unavailable''),
        new_session tags_table (0::nat)
          \<lparr>store := 0,
           calls := calls (new_session tags_table (0::nat)) @ [ModifyItem (PStr ''a'') edited_n]\<rparr>)
   \<and> added_row_step py_json failing_store [''tags''] added_b (new_session tags_table (0::nat))
     = (Some (StoreError ''unavailable''),
        new_session tags_table (0::nat)
          \<lparr>store := 0,
           calls := calls (new_session tags_table (0::nat)) @ [PutItem (PStr ''b'') [(''n'', PInt 1)]]\<rparr>)
   \<and> deleted_row_step failing_store 0 (new_session tags_table (0::nat))
     = (Some (StoreError ''unavailable''),
        new_session tags_table (0::nat)
          \<lparr>store := 0, calls := calls (new_session tags_table (0::nat)) @ [DelItem (PStr ''a'')]\<rparr>)
   \<and> for_each (deleted_row_step failing_store) ([] @ 0 # [0]) (new_session tags_table (0::nat))
     = (Some (StoreError ''unavailable''),
        new_session tags_table (0::nat)
          \<lparr>store := 0, calls := calls (new_session tags_table (0::nat)) @ [DelItem (PStr ''a'')]\<rparr>)
   \<and> fst (edit py_json failing_store deleting_widget (new_session tags_table (0::nat)))
     = Raised (StoreError ''unavailable'')
   \<and> calls (snd (edit py_json failing_store deleting_widget (new_session tags_table (0::nat))))
     = [DelItem (PStr ''a'')]
   \<and> processed_deleted_rows (snd (edit py_json failing_store deleting_widget (new_session tags_table (0::nat))))
     = []
   \<and> fst (edit py_json failing_store editing_widget (new_session tags_table (0::nat)))
     = Raised (StoreError ''unavailable'')
   \<and> calls (snd (edit py_json failing_store editing_widget (new_session tags_table (0::nat))))
     = [ModifyItem (PStr ''a'') decoded_tags]
   \<and> processed_edited_rows
       (snd (edit py_json failing_store editing_widget (new_session tags_table (0::nat)))) 0 = None
   \<and> fst (edit py_json failing_store adding_widget (new_session tags_table (0::nat)))
     = Raised (StoreError ''unavailable'')
   \<and> calls (snd (edit py_json failing_store adding_widget (new_session tags_table (0::nat))))
     = [PutItem (PStr ''b'') [(''n'', PInt 1)]]
   \<and> processed_added_rows
       (snd (edit py_json failing_store adding_widget (new_session tags_table (0::nat)))) = []"
proof -
  let ?s = "new_session tags_table (0::nat)"
  let ?e = "StoreError ''unavailable''"
  have k: "index_at (self_df ?s) 0 = Inr (PStr ''a'')"
    by (rule first_key_of_tags_table)
  have f: "failing_store c (store ?s) = (Some ?e, 0)" for c
    by (simp add: failing_store_def new_session_def)
  have d1: "deserialize_json_cols_mapping py_json edited_n [''tags''] = Inr edited_n"
    by (simp add: edited_n_def)
  have n1: "\<not> already_processed ?s 0 edited_n"
    by (simp add: already_processed_def new_session_def)
  have d2: "deserialize_json_cols_mapping py_json added_b [''tags''] = Inr added_b"
    by (simp add: added_b_def)
  have p2: "pop_index added_b = Inr (PStr ''b'', [(''n'', PInt 1)])"
    by (simp add: pop_index_def added_b_def AList.delete_eq)
  have n2: "''{\"n\": 1}'' \<notin> set (processed_added_rows ?s)"
    by (simp add: new_session_def)
  have n3: "\<not> py_in (PStr ''a'') (processed_deleted_rows ?s)"
    by (simp add: py_in_def new_session_def)
  have l: "for_each (deleted_row_step failing_store) [] ?s = (None, ?s)"
    by simp
  define a where "a = Suc 0"
  define u1 where "u1 = ?s\<lparr>objs := (objs ?s)(a := tags_table), next_obj := Suc a\<rparr>"
  define u2 where "u2 = u1\<lparr>objs := (objs u1)(a := tags_display)\<rparr>"
  define u3 where "u3 = u2\<lparr>ui := ui u2 @ [Grid (objs u2 a)]\<rparr>"
  define u4 where "u4 = u3\<lparr>store := 0, calls := calls u3 @ [DelItem (PStr ''a'')]\<rparr>"
  define m4 where "m4 = u3\<lparr>store := 0, calls := calls u3 @ [ModifyItem (PStr ''a'') decoded_tags]\<rparr>"
  define p4 where "p4 = u3\<lparr>store := 0, calls := calls u3 @ [PutItem (PStr ''b'') [(''n'', PInt 1)]]\<rparr>"
  have e1: "get_json_serializable_cols (self_df ?s) = Inr [''tags'']"
    by (simp add: self_df_def new_session_def tags_table_json_cols)
  have e2: "df_copy (data ?s) ?s = (a, u1)"
    by (simp add: df_copy_def new_session_def u1_def a_def)
  have o1: "objs u1 a = tags_table"
    by (simp add: u1_def)
  have e3: "serialize_at py_json a [''tags''] u1 = (None, u2)"
    by (simp only: serialize_at_def o1 tags_table_serialized sum.case u2_def)
  have e4: "deleting_widget (objs u2 a) = (tags_display, delete_first)"
    and e4m: "editing_widget (objs u2 a) = (tags_display, edit_tags)"
    and e4p: "adding_widget (objs u2 a) = (tags_display, add_b)"
    by (simp_all add: deleting_widget_def editing_widget_def adding_widget_def u2_def)
  have k3: "index_at (self_df u3) 0 = Inr (PStr ''a'')"
    by (simp add: self_df_def u3_def u2_def u1_def a_def new_session_def index_at_def tags_table_def)
  have pd3: "processed_deleted_rows u3 = []" and st3: "store u3 = 0" and c3: "calls u3 = []"
    and pa3: "processed_added_rows u3 = []" and pe3: "processed_edited_rows u3 = Map.empty"
    by (simp_all add: u3_def u2_def u1_def new_session_def)
  have f3: "failing_store c (store u3) = (Some ?e, 0)" for c
    by (simp add: failing_store_def st3)
  have e6: "process_edits py_json failing_store delete_first [''tags'']
              (u2\<lparr>ui := ui u2 @ [Grid (objs u2 a)]\<rparr>) = (Some ?e, u4)"
    unfolding u3_def [symmetric]
    by (simp add: process_edits_def delete_first_def deleted_row_step_def k3 pd3 st3 py_in_def
          invoke_def failing_store_def u4_def)
  note T = store_failure_propagates [where s = ?s and idx = 0 and key = "PStr ''a''"
      and json = py_json and json_cols = "[''tags'']" and conn = failing_store
      and edited_row = edited_n and edited_row' = edited_n and e = ?e and st' = 0
      and added_row = added_b and added_row' = added_b and keys = "PStr ''b''"
      and item = "[(''n'', PInt 1)]" and added_row_repr = "''{\"n\": 1}''"
      and body = "deleted_row_step failing_store" and pre = "[]" and ?s0.0 = ?s and x = 0
      and s' = "?s\<lparr>store := 0, calls := calls ?s @ [DelItem (PStr ''a'')]\<rparr>" and post = "[0]"
      and u = ?s and a = a and ?u1.0 = u1 and ?u2.0 = u2 and widget = deleting_widget
      and edited_df = tags_display and info = delete_first and edited_df' = tags_table
      and ?u4.0 = u4]
  from T k f d1 n1 have r1:
    "edited_row_step py_json failing_store [''tags''] (0, edited_n) ?s
       = (Some ?e, ?s\<lparr>store := 0, calls := calls ?s @ [ModifyItem (PStr ''a'') edited_n]\<rparr>)"
    by blast
  from T f d2 p2 n2 added_b_repr have r2:
    "added_row_step py_json failing_store [''tags''] added_b ?s
       = (Some ?e, ?s\<lparr>store := 0, calls := calls ?s @ [PutItem (PStr ''b'') [(''n'', PInt 1)]]\<rparr>)"
    by blast
  from T k f n3 have r3:
    "deleted_row_step failing_store 0 ?s
       = (Some ?e, ?s\<lparr>store := 0, calls := calls ?s @ [DelItem (PStr ''a'')]\<rparr>)"
    by blast
  from T l r3 have r4:
    "for_each (deleted_row_step failing_store) ([] @ 0 # [0]) ?s
       = (Some ?e, ?s\<lparr>store := 0, calls := calls ?s @ [DelItem (PStr ''a'')]\<rparr>)"
    by blast
  from T e1 e2 e3 e4 tags_display_deserialized e6
  have r5: "edit py_json failing_store deleting_widget ?s = (Raised ?e, u4)"
    by blast
  have r6: "calls u4 = [DelItem (PStr ''a'')]" and r7: "processed_deleted_rows u4 = []"
    by (simp_all add: u4_def c3 pd3)
  text \<open>The render whose diff holds the edited row.\<close>
  note M = store_failure_propagates [where s = u3 and idx = 0 and key = "PStr ''a''"
      and json = py_json and json_cols = "[''tags'']" and conn = failing_store
      and edited_row = edited_tags and edited_row' = decoded_tags and e = ?e and st' = 0
      and body = "edited_row_step py_json failing_store [''tags'']" and pre = "[]"
      and ?s0.0 = u3 and x = "(0, edited_tags)" and s' = m4 and post = "[]"
      and v = u3 and v' = m4 and info = edit_tags
      and u = ?s and a = a and ?u1.0 = u1 and ?u2.0 = u2 and widget = editing_widget
      and edited_df = tags_display and edited_df' = tags_table and ?u4.0 = m4]
  have nm: "\<not> already_processed u3 0 decoded_tags"
    by (simp add: already_processed_def pe3)
  from M k3 edited_tags_decoded nm f3
  have m1: "edited_row_step py_json failing_store [''tags''] (0, edited_tags) u3 = (Some ?e, m4)"
    unfolding m4_def by blast
  have l3: "for_each (edited_row_step py_json failing_store [''tags'']) [] u3 = (None, u3)"
    by simp
  from M l3 m1
  have "for_each (edited_row_step py_json failing_store [''tags'']) ([] @ (0, edited_tags) # []) u3
      = (Some ?e, m4)"
    by blast
  then have m2: "for_each (edited_row_step py_json failing_store [''tags'']) (edited_rows edit_tags) u3
      = (Some ?e, m4)"
    by (simp add: edit_tags_def)
  from M m2 have "process_edits py_json failing_store edit_tags [''tags''] u3 = (Some ?e, m4)"
    by blast
  then have m3: "process_edits py_json failing_store edit_tags [''tags'']
      (u2\<lparr>ui := ui u2 @ [Grid (objs u2 a)]\<rparr>) = (Some ?e, m4)"
    by (simp add: u3_def)
  from M e1 e2 e3 e4m tags_display_deserialized m3
  have m5: "edit py_json failing_store editing_widget ?s = (Raised ?e, m4)"
    by blast
  have m6: "calls m4 = [ModifyItem (PStr ''a'') decoded_tags]"
    and m7: "processed_edited_rows m4 0 = None"
    by (simp_all add: m4_def c3 pe3)
  text \<open>The render whose diff holds the added row.\<close>
  note P = store_failure_propagates [where s = u3
      and json = py_json and json_cols = "[''tags'']" and conn = failing_store
      and e = ?e and st' = 0
      and added_row = added_b and added_row' = added_b and keys = "PStr ''b''"
      and item = "[(''n'', PInt 1)]" and added_row_repr = "''{\"n\": 1}''"
      and body = "added_row_step py_json failing_store [''tags'']" and pre = "[]"
      and ?s0.0 = u3 and x = added_b and s' = p4 and post = "[]"
      and v = u3 and va = u3 and v' = p4 and info = add_b
      and u = ?s and a = a and ?u1.0 = u1 and ?u2.0 = u2 and widget = adding_widget
      and edited_df = tags_display and edited_df' = tags_table and ?u4.0 = p4]
  have np: "''{\"n\": 1}'' \<notin> set (processed_added_rows u3)"
    by (simp add: pa3)
  from P d2 p2 added_b_repr np f3
  have p1: "added_row_step py_json failing_store [''tags''] added_b u3 = (Some ?e, p4)"
    unfolding p4_def by blast
  have q3: "for_each (added_row_step py_json failing_store [''tags'']) [] u3 = (None, u3)"
    by simp
  from P q3 p1
  have "for_each (added_row_step py_json failing_store [''tags'']) ([] @ added_b # []) u3
      = (Some ?e, p4)"
    by blast
  then have p2': "for_each (added_row_step py_json failing_store [''tags'']) (added_rows add_b) u3
      = (Some ?e, p4)"
    by (simp add: add_b_def)
  have p0: "for_each (edited_row_step py_json failing_store [''tags'']) (edited_rows add_b) u3
      = (None, u3)"
    by (simp add: add_b_def)
  from P p0 p2' have "process_edits py_json failing_store add_b [''tags''] u3 = (Some ?e, p4)"
    by blast
  then have p3: "process_edits py_json failing_store add_b [''tags'']
      (u2\<lparr>ui := ui u2 @ [Grid (objs u2 a)]\<rparr>) = (Some ?e, p4)"
    by (simp add: u3_def)
  from P e1 e2 e3 e4p tags_display_deserialized p3
  have p5: "edit py_json failing_store adding_widget ?s = (Raised ?e, p4)"
    by blast
  have p6: "calls p4 = [PutItem (PStr ''b'') [(''n'', PInt 1)]]"
    and p7: "processed_added_rows p4 = []"
    by (simp_all add: p4_def c3 pa3)
  from r1 r2 r3 r4 r5 r6 r7 m5 m6 m7 p5 p6 p7 show ?thesis by simp
qed

section \<open>Added rows\<close>










section \<open>Edited rows\<close>

lemma edited_row_step_skip:
  assumes "index_at (self_df u) idx = Inr key"
    and "deserialize_json_cols_mapping json edited_row json_cols = Inr edited_row'"
    and "already_processed u idx edited_row'"
  shows "edited_row_step json conn json_cols (idx, edited_row) u = (None, u)"
  using assms by (simp add: edited_row_step_def)

lemma edited_row_step_records:
  assumes st: "edited_row_step json conn json_cols (idx, edited_row) s = (None, s')"
    and dec: "deserialize_json_cols_mapping json edited_row json_cols = Inr edited_row'"
    and dk: "distinct_keys (PDict edited_row')"
  shows "already_processed s' idx edited_row'"
proof -
  from py_eq_refl [OF dk] have refl: "py_eq (PDict edited_row') (PDict edited_row')" .
  obtain key where key: "index_at (self_df s) idx = Inr key"
    using st by (cases "index_at (self_df s) idx") (simp_all add: edited_row_step_def)
  show ?thesis
  proof (cases "already_processed s idx edited_row'")
    case True
    with st key dec show ?thesis by (simp add: edited_row_step_def)
  next
    case False
    with st key dec have "processed_edited_rows s' idx = Some edited_row'"
      by (auto simp: edited_row_step_def invoke_def split: prod.splits option.splits)
    with refl show ?thesis by (simp add: already_processed_def)
  qed
qed

lemma edited_row_step_resolves:
  assumes "edited_row_step json conn json_cols (idx, edited_row) s = (None, s')"
  shows "\<exists>key. index_at (self_df s) idx = Inr key"
  using assms by (cases "index_at (self_df s) idx") (simp_all add: edited_row_step_def)

lemma edited_loop_skip:
  fixes u :: "'a session"
  assumes key: "index_at (self_df u) idx = Inr key"
    and dec: "deserialize_json_cols_mapping json edited_row json_cols = Inr edited_row'"
    and q: "already_processed u idx edited_row'"
    and fresh: "idx \<notin> fst ` set pre"
  shows "for_each (edited_row_step json conn json_cols) (pre @ (idx, edited_row) # post) u
       = for_each (edited_row_step json conn json_cols) (pre @ post) u"
proof (rule for_each_skip
    [where Q = "\<lambda>v. self_df v = self_df u \<and> already_processed v idx edited_row'"])
  show "self_df u = self_df u \<and> already_processed u idx edited_row'" using q by simp
next
  fix v :: "'a session"
  assume "self_df v = self_df u \<and> already_processed v idx edited_row'"
  with key dec show "edited_row_step json conn json_cols (idx, edited_row) v = (None, v)"
    by (simp add: edited_row_step_skip)
next
  fix y r and v v' :: "'a session"
  assume y: "y \<in> set pre" and qv: "self_df v = self_df u \<and> already_processed v idx edited_row'"
    and st: "edited_row_step json conn json_cols y v = (r, v')"
  obtain i row where yi: "y = (i, row)" by (cases y)
  with y fresh have ne: "idx \<noteq> i" by force
  from st yi have st': "edited_row_step json conn json_cols (i, row) v = (r, v')" by simp
  from edited_row_step_frame [OF st'] ne
  have "self_df v' = self_df v" and "processed_edited_rows v' idx = processed_edited_rows v idx"
    by simp_all
  with qv show "self_df v' = self_df u \<and> already_processed v' idx edited_row'"
    by (simp add: already_processed_def)
qed

lemma edited_rerun_skipped:
  fixes t :: "'a session"
  assumes key: "index_at (self_df t) idx = Inr key"
    and dec: "deserialize_json_cols_mapping json edited_row json_cols = Inr edited_row'"
    and q: "already_processed t idx edited_row'"
    and es: "edited_rows info = pre @ (idx, edited_row) # post"
    and fresh: "idx \<notin> fst ` set pre"
  shows "process_edits json conn info json_cols t
       = process_edits json conn (info\<lparr>edited_rows := pre @ post\<rparr>) json_cols t"
  using edited_loop_skip [OF key dec q fresh, of conn post] es
  by (simp add: process_edits_def split: prod.splits option.splits)

lemma edited_loop_keeps_position:
  fixes s :: "'a session"
  assumes loop: "for_each (edited_row_step json conn json_cols) es s = (r, s')"
    and fresh: "idx \<notin> fst ` set es"
  shows "processed_edited_rows s' idx = processed_edited_rows s idx"
proof (rule for_each_invariant
    [OF loop, where I = "\<lambda>v. processed_edited_rows v idx = processed_edited_rows s idx"])
  show "processed_edited_rows s idx = processed_edited_rows s idx" by simp
next
  fix y r and v v' :: "'a session"
  assume y: "y \<in> set es" and qv: "processed_edited_rows v idx = processed_edited_rows s idx"
    and st: "edited_row_step json conn json_cols y v = (r, v')"
  obtain i row where yi: "y = (i, row)" by (cases y)
  with y fresh have ne: "idx \<noteq> i" by force
  from st yi have st': "edited_row_step json conn json_cols (i, row) v = (r, v')" by simp
  from edited_row_step_frame [OF st'] ne
  have "processed_edited_rows v' idx = processed_edited_rows v idx" by simp
  with qv show "processed_edited_rows v' idx = processed_edited_rows s idx" by simp
qed

lemma process_edits_edited_record:
  assumes loop: "for_each (edited_row_step json conn json_cols) (edited_rows info) s = (r', sc)"
    and run: "process_edits json conn info json_cols s = (r, s1)"
  shows "processed_edited_rows s1 = processed_edited_rows sc"
proof (cases r')
  case (Some e)
  with loop run show ?thesis by (simp add: process_edits_def)
next
  case None
  obtain r2 sd where a: "for_each (added_row_step json conn json_cols) (added_rows info) sc = (r2, sd)"
    by (cases "for_each (added_row_step json conn json_cols) (added_rows info) sc")
  note fa = added_loop_frame [OF a]
  show ?thesis
  proof (cases r2)
    case (Some e)
    with None loop a run have "s1 = sd" by (simp add: process_edits_def)
    with fa show ?thesis by simp
  next
    case None2: None
    with None loop a run
    have "for_each (deleted_row_step conn) (deleted_rows info) sd = (r, s1)"
      by (simp add: process_edits_def)
    from deleted_loop_frame [OF this] fa show ?thesis by simp
  qed
qed

lemma edited_entry_recorded:
  assumes es: "edited_rows info = before @ (idx, edited_row) # rest"
    and fresh: "idx \<notin> fst ` set rest"
    and past: "for_each (edited_row_step json conn json_cols) (before @ [(idx, edited_row)]) s
                 = (None, sb)"
    and run: "process_edits json conn info json_cols s = (r, s1)"
    and dec: "deserialize_json_cols_mapping json edited_row json_cols = Inr edited_row'"
    and dk: "distinct_keys (PDict edited_row')"
  shows "already_processed s1 idx edited_row' \<and> (\<exists>key. index_at (self_df s) idx = Inr key)"
proof -
  from for_each_None_split [OF past] obtain sa where
    b: "for_each (edited_row_step json conn json_cols) before s = (None, sa)" and
    x: "edited_row_step json conn json_cols (idx, edited_row) sa = (None, sb)"
    by (elim exE conjE) simp
  from edited_row_step_records [OF x dec dk] have q: "already_processed sb idx edited_row'" .
  from edited_row_step_resolves [OF x] edited_loop_frame [OF b]
  have key: "\<exists>key. index_at (self_df s) idx = Inr key" by simp
  obtain r' sc where l: "for_each (edited_row_step json conn json_cols) rest sb = (r', sc)"
    by (cases "for_each (edited_row_step json conn json_cols) rest sb")
  have "for_each (edited_row_step json conn json_cols) (edited_rows info) s = (r', sc)"
    using past es l for_each_append [of "edited_row_step json conn json_cols"
        "before @ [(idx, edited_row)]" rest s]
    by simp
  from process_edits_edited_record [OF this run]
  have "processed_edited_rows s1 idx = processed_edited_rows sc idx" by simp
  also from edited_loop_keeps_position [OF l fresh]
  have "processed_edited_rows sc idx = processed_edited_rows sb idx" .
  finally have "already_processed s1 idx edited_row'"
    using q by (simp add: already_processed_def)
  with key show ?thesis by simp
qed

text \<open>
  C1. A position in the edited rows is resolved through the row order of the snapshot:
  position \<open>i\<close> from the start, or from the end when negative, is the key the index holds
  there, and a position outside the table ends the step with \<open>IndexError\<close>; changed
  columns that do not decode end it with the error of the codec. When the record holds,
  for that position, columns equal (Python's \<open>==\<close>) to the decoded ones, the step does
  nothing: no call, the session unchanged. Otherwise the step calls \<open>modify_item\<close> once
  with the row key and the decoded columns; when the call returns they are recorded for
  the position, when it raises the record is left as it was. A render starts with these
  steps over the edited rows, in order, and ends with the exception of the first step
  that raises. Once the step of an entry has returned in a render, a later render on the
  same snapshot, whose record for the position is still the one that render left, treats
  the entry as if the diff did not report it: no second \<open>modify_item\<close> for it.
\<close>

theorem edited_row_applied_once:
  "index_at (self_df s) idx =
     (if 0 \<le> idx \<and> idx < int (length (df_index (self_df s)))
        then Inr (df_index (self_df s) ! nat idx)
      else if - int (length (df_index (self_df s))) \<le> idx \<and> idx < 0
        then Inr (df_index (self_df s) ! nat (int (length (df_index (self_df s))) + idx))
      else Inl IndexError)
   \<and> edited_row_step json conn json_cols (idx, edited_row) s =
       (case index_at (self_df s) idx of
          Inl e \<Rightarrow> (Some e, s)
        | Inr k \<Rightarrow>
            (case deserialize_json_cols_mapping json edited_row json_cols of
               Inl e \<Rightarrow> (Some e, s)
             | Inr columns \<Rightarrow>
                 if already_processed s idx columns then (None, s)
                 else (case conn (ModifyItem k columns) (store s) of
                         (None, st') \<Rightarrow>
                           (None, s\<lparr>store := st', calls := calls s @ [ModifyItem k columns],
                                    processed_edited_rows :=
                                      (processed_edited_rows s)(idx \<mapsto> columns)\<rparr>)
                       | (Some e, st') \<Rightarrow>
                           (Some e, s\<lparr>store := st', calls := calls s @ [ModifyItem k columns]\<rparr>))))
   \<and> (already_processed s idx changes \<longleftrightarrow>
        (\<exists>recorded. processed_edited_rows s idx = Some recorded
                      \<and> py_eq (PDict recorded) (PDict changes)))
   \<and> process_edits json conn info json_cols s =
       (case for_each (edited_row_step json conn json_cols) (edited_rows info) s of
          (Some e, s') \<Rightarrow> (Some e, s')
        | (None, s') \<Rightarrow> process_edits json conn (info\<lparr>edited_rows := []\<rparr>) json_cols s')
   \<and> for_each (edited_row_step json conn json_cols) ((idx, edited_row) # others) s =
       (case edited_row_step json conn json_cols (idx, edited_row) s of
          (Some e, s') \<Rightarrow> (Some e, s')
        | (None, s') \<Rightarrow> for_each (edited_row_step json conn json_cols) others s')
   \<and> (edited_rows info = before @ (idx, edited_row) # rest
      \<and> idx \<notin> fst ` set rest
      \<and> for_each (edited_row_step json conn json_cols) (before @ [(idx, edited_row)]) s
          = (None, sb)
      \<and> process_edits json conn info json_cols s = (r, s1)
      \<and> deserialize_json_cols_mapping json edited_row json_cols = Inr changes
      \<and> distinct_keys (PDict changes)
      \<and> self_df t = self_df s
      \<and> processed_edited_rows t idx = processed_edited_rows s1 idx
      \<and> edited_rows info' = pre @ (idx, edited_row) # post
      \<and> idx \<notin> fst ` set pre
      \<longrightarrow> process_edits json conn' info' json_cols t
            = process_edits json conn' (info'\<lparr>edited_rows := pre @ post\<rparr>) json_cols t)"
proof (intro conjI impI)
  show "index_at (self_df s) idx =
     (if 0 \<le> idx \<and> idx < int (length (df_index (self_df s)))
        then Inr (df_index (self_df s) ! nat idx)
      else if - int (length (df_index (self_df s))) \<le> idx \<and> idx < 0
        then Inr (df_index (self_df s) ! nat (int (length (df_index (self_df s))) + idx))
      else Inl IndexError)"
    by (rule index_at_position)
next
  show "edited_row_step json conn json_cols (idx, edited_row) s =
       (case index_at (self_df s) idx of
          Inl e \<Rightarrow> (Some e, s)
        | Inr k \<Rightarrow>
            (case deserialize_json_cols_mapping json edited_row json_cols of
               Inl e \<Rightarrow> (Some e, s)
             | Inr columns \<Rightarrow>
                 if already_processed s idx columns then (None, s)
                 else (case conn (ModifyItem k columns) (store s) of
                         (None, st') \<Rightarrow>
                           (None, s\<lparr>store := st', calls := calls s @ [ModifyItem k columns],
                                    processed_edited_rows :=
                                      (processed_edited_rows s)(idx \<mapsto> columns)\<rparr>)
                       | (Some e, st') \<Rightarrow>
                           (Some e, s\<lparr>store := st', calls := calls s @ [ModifyItem k columns]\<rparr>))))"
    by (simp add: edited_row_step_def invoke_def split: sum.splits prod.splits option.splits)
next
  show "already_processed s idx changes \<longleftrightarrow>
        (\<exists>recorded. processed_edited_rows s idx = Some recorded
                      \<and> py_eq (PDict recorded) (PDict changes))"
    by (cases "processed_edited_rows s idx") (simp_all add: already_processed_def)
next
  show "process_edits json conn info json_cols s =
       (case for_each (edited_row_step json conn json_cols) (edited_rows info) s of
          (Some e, s') \<Rightarrow> (Some e, s')
        | (None, s') \<Rightarrow> process_edits json conn (info\<lparr>edited_rows := []\<rparr>) json_cols s')"
    by (simp add: process_edits_def split: prod.splits option.splits)
next
  show "for_each (edited_row_step json conn json_cols) ((idx, edited_row) # others) s =
       (case edited_row_step json conn json_cols (idx, edited_row) s of
          (Some e, s') \<Rightarrow> (Some e, s')
        | (None, s') \<Rightarrow> for_each (edited_row_step json conn json_cols) others s')"
    by simp
next
  assume h: "edited_rows info = before @ (idx, edited_row) # rest
      \<and> idx \<notin> fst ` set rest
      \<and> for_each (edited_row_step json conn json_cols) (before @ [(idx, edited_row)]) s
          = (None, sb)
      \<and> process_edits json conn info json_cols s = (r, s1)
      \<and> deserialize_json_cols_mapping json edited_row json_cols = Inr changes
      \<and> distinct_keys (PDict changes)
      \<and> self_df t = self_df s
      \<and> processed_edited_rows t idx = processed_edited_rows s1 idx
      \<and> edited_rows info' = pre @ (idx, edited_row) # post
      \<and> idx \<notin> fst ` set pre"
  then have es: "edited_rows info = before @ (idx, edited_row) # rest"
    and fresh: "idx \<notin> fst ` set rest"
    and past: "for_each (edited_row_step json conn json_cols) (before @ [(idx, edited_row)]) s
                 = (None, sb)"
    and run: "process_edits json conn info json_cols s = (r, s1)"
    and dec: "deserialize_json_cols_mapping json edited_row json_cols = Inr changes"
    and dk: "distinct_keys (PDict changes)"
    and sd: "self_df t = self_df s"
    and pe: "processed_edited_rows t idx = processed_edited_rows s1 idx"
    and es': "edited_rows info' = pre @ (idx, edited_row) # post"
    and fresh': "idx \<notin> fst ` set pre"
    by blast+
  from edited_entry_recorded [OF es fresh past run dec dk]
  obtain key where q1: "already_processed s1 idx changes"
    and key: "index_at (self_df s) idx = Inr key"
    by (elim exE conjE)
  from q1 pe have q: "already_processed t idx changes" by (simp add: already_processed_def)
  from key sd have k: "index_at (self_df t) idx = Inr key" by simp
  show "process_edits json conn' info' json_cols t
      = process_edits json conn' (info'\<lparr>edited_rows := pre @ post\<rparr>) json_cols t"
    by (rule edited_rerun_skipped [OF k dec q es' fresh'])
qed

theorem edited_row_applied_once_witness:
  "index_at (self_df (new_session two_rows (0::nat))) 1 = Inr (PStr ''b'')
   \<and> index_at (self_df (new_session two_rows (0::nat))) 0 = Inr (PStr ''a'')
   \<and> index_at (self_df (new_session two_rows (0::nat))) (- 2) = Inr (PStr ''a'')
   \<and> index_at (self_df (new_session two_rows (0::nat))) 2 = Inl IndexError
   \<and> deserialize_json_cols_mapping py_json edited_tags [''tags''] = Inr decoded_tags
   \<and> process_edits py_json ok_store edit_second [''tags''] (new_session two_rows (0::nat))
       = (None, new_session two_rows (0::nat)
                  \<lparr>store := Suc 0, calls := [ModifyItem (PStr ''b'') decoded_tags],
                   processed_edited_rows := [1 \<mapsto> decoded_tags]\<rparr>)
   \<and> process_edits py_json ok_store edit_second [''tags'']
         (new_session two_rows (0::nat)
            \<lparr>store := Suc 0, calls := [ModifyItem (PStr ''b'') decoded_tags],
             processed_edited_rows := [1 \<mapsto> decoded_tags]\<rparr>)
       = (None, new_session two_rows (0::nat)
                  \<lparr>store := Suc 0, calls := [ModifyItem (PStr ''b'') decoded_tags],
                   processed_edited_rows := [1 \<mapsto> decoded_tags]\<rparr>)
   \<and> calls (snd (edited_row_step py_json ok_store [''tags''] (1, edited_n)
         (new_session two_rows (0::nat)
            \<lparr>store := Suc 0, calls := [ModifyItem (PStr ''b'') decoded_tags],
             processed_edited_rows := [1 \<mapsto> decoded_tags]\<rparr>)))
       = [ModifyItem (PStr ''b'') decoded_tags, ModifyItem (PStr ''b'') edited_n]
   \<and> edited_row_step py_json ok_store [''tags''] (1, [(''n'', PBool True)])
         (new_session two_rows (0::nat)\<lparr>processed_edited_rows := [1 \<mapsto> [(''n'', PInt 1)]]\<rparr>)
       = (None, new_session two_rows (0::nat)\<lparr>processed_edited_rows := [1 \<mapsto> [(''n'', PInt 1)]]\<rparr>)"
proof -
  let ?s = "new_session two_rows (0::nat)"
  let ?s1 = "?s\<lparr>store := Suc 0, calls := [ModifyItem (PStr ''b'') decoded_tags],
                 processed_edited_rows := [1 \<mapsto> decoded_tags]\<rparr>"
  let ?s2 = "?s\<lparr>processed_edited_rows := [1 \<mapsto> [(''n'', PInt 1)]]\<rparr>"
  note dec = edited_tags_decoded
  note T = edited_row_applied_once [where s = ?s and idx = 1 and conn = ok_store
      and json = py_json and json_cols = "[''tags'']" and edited_row = edited_tags
      and changes = decoded_tags and info = edit_second and others = "[]"
      and before = "[]" and rest = "[]" and sb = ?s1 and r = None and ?s1.0 = ?s1
      and t = ?s1 and info' = edit_second and pre = "[]" and post = "[]" and conn' = ok_store]
  have df: "self_df ?s = two_rows" and df1: "self_df ?s1 = self_df ?s"
    and df2: "self_df ?s2 = two_rows"
    by (simp_all add: self_df_def new_session_def)
  have ix: "df_index two_rows = [PStr ''a'', PStr ''b'']"
    by (simp add: two_rows_def)
  from T have k1: "index_at (self_df ?s) 1 = Inr (PStr ''b'')"
    by (simp add: df ix)
  have k0: "index_at (self_df ?s) 0 = Inr (PStr ''a'')"
    and k2: "index_at (self_df ?s) (- 2) = Inr (PStr ''a'')"
    and k3: "index_at (self_df ?s) 2 = Inl IndexError"
    by (simp_all add: df ix index_at_def)
  have n: "\<not> already_processed ?s 1 decoded_tags"
    by (simp add: already_processed_def new_session_def)
  have c: "ok_store (ModifyItem (PStr ''b'') decoded_tags) (store ?s) = (None, Suc 0)"
    by (simp add: ok_store_def new_session_def)
  have u: "?s\<lparr>store := Suc 0, calls := calls ?s @ [ModifyItem (PStr ''b'') decoded_tags],
               processed_edited_rows := (processed_edited_rows ?s)(1 \<mapsto> decoded_tags)\<rparr> = ?s1"
    by (simp add: new_session_def)
  from T k1 dec n c u
  have st: "edited_row_step py_json ok_store [''tags''] (1, edited_tags) ?s = (None, ?s1)"
    by simp
  then have past: "for_each (edited_row_step py_json ok_store [''tags'']) ([] @ [(1, edited_tags)]) ?s
      = (None, ?s1)"
    by simp
  have rest: "process_edits py_json ok_store (edit_second\<lparr>edited_rows := []\<rparr>) [''tags''] ?s1
      = (None, ?s1)"
    by (simp add: process_edits_def edit_second_def)
  have es: "edited_rows edit_second = [] @ (1, edited_tags) # []"
    and fr: "(1::int) \<notin> fst ` set []"
    by (simp_all add: edit_second_def)
  from T st rest have run: "process_edits py_json ok_store edit_second [''tags''] ?s = (None, ?s1)"
    by (simp add: edit_second_def)
  have dk: "distinct_keys (PDict decoded_tags)" by (simp add: decoded_tags_def)
  have pe: "processed_edited_rows ?s1 1 = processed_edited_rows ?s1 1" by simp
  from T es fr past run dec dk df1 pe
  have "process_edits py_json ok_store edit_second [''tags''] ?s1
      = process_edits py_json ok_store (edit_second\<lparr>edited_rows := [] @ []\<rparr>) [''tags''] ?s1"
    by blast
  with rest have again: "process_edits py_json ok_store edit_second [''tags''] ?s1 = (None, ?s1)"
    by simp
  have dn: "deserialize_json_cols_mapping py_json edited_n [''tags''] = Inr edited_n"
    by (simp add: edited_n_def)
  have nn: "\<not> already_processed ?s1 1 edited_n"
    by (simp add: already_processed_def edited_n_def decoded_tags_def)
  have other: "calls (snd (edited_row_step py_json ok_store [''tags''] (1, edited_n) ?s1))
      = [ModifyItem (PStr ''b'') decoded_tags, ModifyItem (PStr ''b'') edited_n]"
    using k1 dn nn by (simp add: edited_row_step_def df1 invoke_def ok_store_def)
  have db: "deserialize_json_cols_mapping py_json [(''n'', PBool True)] [''tags'']
      = Inr [(''n'', PBool True)]"
    by simp
  have ab: "already_processed ?s2 1 [(''n'', PBool True)]"
    by (simp add: already_processed_def)
  have k1': "index_at (self_df ?s2) 1 = Inr (PStr ''b'')"
    by (simp add: df2 ix index_at_def)
  have same: "edited_row_step py_json ok_store [''tags''] (1, [(''n'', PBool True)]) ?s2 = (None, ?s2)"
    using k1' db ab by (simp add: edited_row_step_def)
  from k1 k0 k2 k3 dec run again other same show ?thesis by blast
qed

text \<open>
  When \<open>modify_item\<close> raises, the entry is not recorded, and the next render, given the
  same diff, calls \<open>modify_item\<close> for it again: two renders on the table of one row with a
  store that refuses every call.
\<close>

theorem modify_repeated_after_failure:
  "fst (edit py_json failing_store editing_widget (new_session tags_table (0::nat)))
     = Raised (StoreError ''unavailable'')
   \<and> processed_edited_rows
       (snd (edit py_json failing_store editing_widget (new_session tags_table (0::nat)))) 0 = None
   \<and> calls (snd (edit py_json failing_store editing_widget
              (snd (edit py_json failing_store editing_widget (new_session tags_table (0::nat))))))
     = [ModifyItem (PStr ''a'') decoded_tags, ModifyItem (PStr ''a'') decoded_tags]"
  by code_simp

section \<open>Deserialization\<close>

lemma loads_bad: "loads py_json (PStr ''{bad'') = Inl JSONDecodeError"
  by code_simp

text \<open>
  C5. When \<open>_deserialize_json_cols\<close> returns, on a mapping or on a table, the keys and
  the row labels are as before, every column outside the JSON columns is as before, and
  every JSON column that is present holds, cell by cell, what the deserializer made of
  the old cell: \<open>None\<close> for \<open>None\<close>, and what \<open>json.loads\<close> returns for any other
  cell; a JSON column missing from a mapping stays missing. When the JSON columns
  before a column decode and a cell of that column is text that \<open>json.loads\<close> refuses,
  the call ends with that failure and returns no data: a \<open>JSONDecodeError\<close> becomes the
  \<open>JSONError\<close> whose message names the column, and two columns never share a message;
  any other exception passes unchanged.
\<close>

theorem deserialize_json_cols_result:
  "(deserialize_json_cols_mapping json m json_cols = Inr m' \<and> distinct json_cols \<longrightarrow>
      map fst m' = map fst m
      \<and> (\<forall>c. if c \<in> set json_cols
              then rel_option (\<lambda>s v. deserializer json s = Inr v) (map_of m c) (map_of m' c)
              else map_of m' c = map_of m c))
   \<and> (deserialize_json_cols_df json df json_cols = Inr df' \<and> distinct json_cols \<longrightarrow>
      df_index df' = df_index df
      \<and> map fst (df_columns df') = map fst (df_columns df)
      \<and> (\<forall>c. if c \<in> set json_cols
              then (\<exists>vs ws. map_of (df_columns df) c = Some vs
                     \<and> map_of (df_columns df') c = Some ws
                     \<and> list_all2 (\<lambda>v w. deserializer json v = Inr w) vs ws)
              else map_of (df_columns df') c = map_of (df_columns df) c))
   \<and> deserializer json PNone = Inr PNone
   \<and> (s \<noteq> PNone \<longrightarrow> deserializer json s = loads json s)
   \<and> (bad_cols = pre @ c # post \<and> distinct bad_cols
      \<and> (\<forall>x\<in>set pre. \<forall>t. map_of bad_m x = Some t \<longrightarrow> (\<exists>v. deserializer json t = Inr v))
      \<and> map_of bad_m c = Some s \<and> s \<noteq> PNone \<and> loads json s = Inl e \<longrightarrow>
      deserialize_json_cols_mapping json bad_m bad_cols = Inl (reraise c e))
   \<and> (bad_cols = pre @ c # post \<and> distinct bad_cols
      \<and> (\<forall>x\<in>set pre. \<exists>vs. map_of (df_columns bad_df) x = Some vs
             \<and> (\<forall>v\<in>set vs. \<exists>w. deserializer json v = Inr w))
      \<and> map_of (df_columns bad_df) c = Some (cells_before @ s # cells_after)
      \<and> (\<forall>v\<in>set cells_before. \<exists>w. deserializer json v = Inr w)
      \<and> s \<noteq> PNone \<and> loads json s = Inl e \<longrightarrow>
      deserialize_json_cols_df json bad_df bad_cols = Inl (reraise c e))
   \<and> reraise c JSONDecodeError = JSONError (json_error_message c)
   \<and> (e \<noteq> JSONDecodeError \<longrightarrow> reraise c e = e)
   \<and> (json_error_message c = json_error_message c' \<longrightarrow> c = c')"
proof (intro conjI impI)
  assume a: "deserialize_json_cols_mapping json m json_cols = Inr m' \<and> distinct json_cols"
  then have r: "deserialize_json_cols_mapping json m json_cols = Inr m'" and d: "distinct json_cols"
    by simp_all
  from deserialize_mapping_result [OF r d] show "map fst m' = map fst m" by blast
  from deserialize_mapping_result [OF r d]
  show "\<forall>c. if c \<in> set json_cols
              then rel_option (\<lambda>s v. deserializer json s = Inr v) (map_of m c) (map_of m' c)
              else map_of m' c = map_of m c" by blast
next
  assume a: "deserialize_json_cols_df json df json_cols = Inr df' \<and> distinct json_cols"
  then have r: "deserialize_json_cols_df json df json_cols = Inr df'" and d: "distinct json_cols"
    by simp_all
  from deserialize_df_result [OF r d] show "df_index df' = df_index df" by blast
  from deserialize_df_result [OF r d]
  show "map fst (df_columns df') = map fst (df_columns df)" by blast
  from deserialize_df_result [OF r d]
  show "\<forall>c. if c \<in> set json_cols
              then (\<exists>vs ws. map_of (df_columns df) c = Some vs
                     \<and> map_of (df_columns df') c = Some ws
                     \<and> list_all2 (\<lambda>v w. deserializer json v = Inr w) vs ws)
              else map_of (df_columns df') c = map_of (df_columns df) c" by blast
next
  show "deserializer json PNone = Inr PNone" by (rule deserializer_None)
next
  assume "s \<noteq> PNone"
  then show "deserializer json s = loads json s" by (rule deserializer_text)
next
  assume a: "bad_cols = pre @ c # post \<and> distinct bad_cols
      \<and> (\<forall>x\<in>set pre. \<forall>t. map_of bad_m x = Some t \<longrightarrow> (\<exists>v. deserializer json t = Inr v))
      \<and> map_of bad_m c = Some s \<and> s \<noteq> PNone \<and> loads json s = Inl e"
  then have cols: "bad_cols = pre @ c # post" and dist: "distinct bad_cols"
    and pre: "\<forall>x\<in>set pre. \<forall>t. map_of bad_m x = Some t \<longrightarrow> (\<exists>v. deserializer json t = Inr v)"
    and cell: "map_of bad_m c = Some s" and ne: "s \<noteq> PNone" and ld: "loads json s = Inl e"
    by blast+
  from ne ld have err: "deserializer json s = Inl e" by (simp add: deserializer_def)
  show "deserialize_json_cols_mapping json bad_m bad_cols = Inl (reraise c e)"
    by (rule deserialize_mapping_fails [OF cols dist pre cell err])
next
  assume a: "bad_cols = pre @ c # post \<and> distinct bad_cols
      \<and> (\<forall>x\<in>set pre. \<exists>vs. map_of (df_columns bad_df) x = Some vs
             \<and> (\<forall>v\<in>set vs. \<exists>w. deserializer json v = Inr w))
      \<and> map_of (df_columns bad_df) c = Some (cells_before @ s # cells_after)
      \<and> (\<forall>v\<in>set cells_before. \<exists>w. deserializer json v = Inr w)
      \<and> s \<noteq> PNone \<and> loads json s = Inl e"
  then have cols: "bad_cols = pre @ c # post" and dist: "distinct bad_cols"
    and pre: "\<forall>x\<in>set pre. \<exists>vs. map_of (df_columns bad_df) x = Some vs
             \<and> (\<forall>v\<in>set vs. \<exists>w. deserializer json v = Inr w)"
    and col: "map_of (df_columns bad_df) c = Some (cells_before @ s # cells_after)"
    and bef: "\<forall>v\<in>set cells_before. \<exists>w. deserializer json v = Inr w"
    and ne: "s \<noteq> PNone" and ld: "loads json s = Inl e"
    by blast+
  from ne ld have err: "deserializer json s = Inl e" by (simp add: deserializer_def)
  from series_apply_Inl [OF refl bef err]
  have "series_apply (deserializer json) (cells_before @ s # cells_after) = Inl e" .
  from deserialize_df_fails [OF cols dist pre col this]
  show "deserialize_json_cols_df json bad_df bad_cols = Inl (reraise c e)" .
next
  show "reraise c JSONDecodeError = JSONError (json_error_message c)"
    by (simp add: reraise_def)
next
  assume "e \<noteq> JSONDecodeError"
  then show "reraise c e = e" by (simp add: reraise_def)
next
  assume "json_error_message c = json_error_message c'"
  then show "c = c'" by (rule json_error_message_inj)
qed


theorem deserialize_json_cols_result_witness:
  "deserialize_json_cols_mapping py_json edited_tags [''tags''] = Inr decoded_tags
   \<and> distinct [''tags'']
   \<and> map fst decoded_tags = map fst edited_tags
   \<and> deserialize_json_cols_df py_json tags_display [''tags''] = Inr tags_table
   \<and> df_index tags_table = df_index tags_display
   \<and> map_of bad_tags ''tags'' = Some (PStr ''{bad'')
   \<and> loads py_json (PStr ''{bad'') = Inl JSONDecodeError
   \<and> deserialize_json_cols_mapping py_json bad_tags [''tags'']
       = Inl (JSONError (json_error_message ''tags''))
   \<and> deserialize_json_cols_df py_json bad_display [''tags'']
       = Inl (JSONError (json_error_message ''tags''))
   \<and> deserializer py_json PNone = Inr PNone"
proof -
  note T = deserialize_json_cols_result [where json = py_json and m = edited_tags
      and json_cols = "[''tags'']" and m' = decoded_tags and df = tags_display
      and df' = tags_table and s = "PStr ''{bad''" and bad_cols = "[''tags'']"
      and pre = "[]" and c = "''tags''" and post = "[]" and bad_m = bad_tags
      and e = JSONDecodeError and bad_df = bad_display and cells_before = "[]"
      and cells_after = "[]"]
  have d: "distinct [''tags'']" by simp
  have c0: "[''tags''] = [] @ ''tags'' # []" by simp
  have p0: "\<forall>x\<in>set []. \<forall>t. map_of bad_tags x = Some t \<longrightarrow> (\<exists>v. deserializer py_json t = Inr v)"
    by simp
  have p1: "\<forall>x\<in>set []. \<exists>vs. map_of (df_columns bad_display) x = Some vs
             \<and> (\<forall>v\<in>set vs. \<exists>w. deserializer py_json v = Inr w)"
    by simp
  have b0: "\<forall>v\<in>set []. \<exists>w. deserializer py_json v = Inr w" by simp
  have cm: "map_of bad_tags ''tags'' = Some (PStr ''{bad'')"
    by (simp add: bad_tags_def)
  have cd: "map_of (df_columns bad_display) ''tags'' = Some ([] @ PStr ''{bad'' # [])"
    by (simp add: bad_display_def)
  have ne: "PStr ''{bad'' \<noteq> PNone" by simp
  from T edited_tags_decoded d have r1: "map fst decoded_tags = map fst edited_tags"
    by blast
  from T tags_display_deserialized d have r2: "df_index tags_table = df_index tags_display"
    by blast
  from T c0 d p0 cm ne loads_bad
  have "deserialize_json_cols_mapping py_json bad_tags [''tags'']
          = Inl (reraise ''tags'' JSONDecodeError)"
    by blast
  moreover from T have rr: "reraise ''tags'' JSONDecodeError = JSONError (json_error_message ''tags'')"
    by blast
  ultimately have r3: "deserialize_json_cols_mapping py_json bad_tags [''tags'']
          = Inl (JSONError (json_error_message ''tags''))"
    by simp
  from T c0 d p1 cd b0 ne loads_bad
  have "deserialize_json_cols_df py_json bad_display [''tags'']
          = Inl (reraise ''tags'' JSONDecodeError)"
    by blast
  with rr have r4: "deserialize_json_cols_df py_json bad_display [''tags'']
          = Inl (JSONError (json_error_message ''tags''))"
    by simp
  from T have r5: "deserializer py_json PNone = Inr PNone" by blast
  from edited_tags_decoded d r1 tags_display_deserialized r2 cm loads_bad r3 r4 r5
  show ?thesis by blast
qed

end
